theory Spec2Isabelle
  imports Complex_Main "HOL-Library.Monad_Syntax"
begin

section \<open>Numbers\<close>

text \<open>
  The program computes with JavaScript numbers (IEEE doubles; the colour buffer is a
  \<^verbatim>\<open>Float32Array\<close>). This development idealises them as the real numbers:
  rounding, overflow and NaN are outside the model. Counters and array indices, which the
  program only ever increments from 0, are natural numbers; the mode, a \<^verbatim>\<open>number\<close>
  that is compared with the literals 1, 2 and 3, is an integer.
\<close>

section \<open>Gesture interpreter (src/App.tsx)\<close>

subsection \<open>Data\<close>

text \<open>
  A landmark of the hand tracker: an object with the fields \<^verbatim>\<open>x\<close>, \<^verbatim>\<open>y\<close>,
  \<^verbatim>\<open>z\<close>. The selectors carry a prefix because \<open>x\<close>, \<open>y\<close> and \<open>z\<close> are needed as
  variable names.
\<close>

datatype NormalizedLandmark =
  NormalizedLandmark (lm_x: real) (lm_y: real) (lm_z: real)

type_synonym hand = "NormalizedLandmark list"

text \<open>
  Reading a field of \<^verbatim>\<open>landmarks[i]\<close> with \<open>i\<close> out of range throws a TypeError
  (\<^verbatim>\<open>undefined.y\<close>); it is the only exception of the gesture logic, so a failed read
  is \<open>None\<close>. The other exception of the program is the browser's IndexSizeError, raised
  by \<^verbatim>\<open>getImageData\<close> for an empty rectangle.
\<close>

datatype error = TypeError | IndexSizeError

definition landmarkAt :: "hand \<Rightarrow> nat \<Rightarrow> NormalizedLandmark option" where
  "landmarkAt landmarks idx =
     (if idx < length landmarks then Some (landmarks ! idx) else None)"

text \<open>
  The React state of \<^verbatim>\<open>App\<close> that the 3D scene consumes (lines 17-22), together with
  \<^verbatim>\<open>lastVideoTimeRef\<close> (line 26).
\<close>

record control =
  targetMode :: int
  dispersionFactor :: real
  activeHandCount :: nat
  lastVideoTime :: real

definition initialControl :: control where
  "initialControl =
     \<lparr>targetMode = 1, dispersionFactor = 0, activeHandCount = 0, lastVideoTime = - 1\<rparr>"

text \<open>What \<^verbatim>\<open>App\<close> passes to \<^verbatim>\<open>ParticleSystem\<close> (line 191).\<close>

record props =
  mode :: int
  dispersion :: real
  hasHand :: bool

definition sceneProps :: "control \<Rightarrow> props" where
  "sceneProps st =
     \<lparr>mode = targetMode st, dispersion = dispersionFactor st,
      hasHand = (activeHandCount st > 0)\<rparr>"

subsection \<open>Finger count and mode (lines 104-124)\<close>

definition isFingerUp :: "hand \<Rightarrow> nat \<Rightarrow> nat \<Rightarrow> bool option" where
  "isFingerUp landmarks tipIdx pipIdx =
     do {
       tip \<leftarrow> landmarkAt landmarks tipIdx;
       pip \<leftarrow> landmarkAt landmarks pipIdx;
       Some (lm_y tip < lm_y pip)
     }"

definition countFingers :: "hand \<Rightarrow> nat option" where
  "countFingers landmarks =
     do {
       indexUp \<leftarrow> isFingerUp landmarks 8 6;
       middleUp \<leftarrow> isFingerUp landmarks 12 10;
       ringUp \<leftarrow> isFingerUp landmarks 16 14;
       pinkyUp \<leftarrow> isFingerUp landmarks 20 18;
       let count = 0;
       let count = (if indexUp then count + 1 else count);
       let count = (if middleUp then count + 1 else count);
       let count = (if ringUp then count + 1 else count);
       let count = (if pinkyUp then count + 1 else count);
       Some count
     }"

text \<open>
  The \<^verbatim>\<open>if / else if / else if\<close> chain of lines 122-124: with no branch taken
  \<^verbatim>\<open>setTargetMode\<close> is not called and the mode stays what it was.
\<close>

definition updateMode :: "nat \<Rightarrow> control \<Rightarrow> control" where
  "updateMode count st =
     (if count = 1 then st\<lparr>targetMode := 1\<rparr>
      else if count = 2 then st\<lparr>targetMode := 2\<rparr>
      else if count \<ge> 3 then st\<lparr>targetMode := 3\<rparr>
      else st)"

subsection \<open>Hand spread and dispersion (lines 132-154)\<close>

definition tips :: "nat list" where
  "tips = [4, 8, 12, 16, 20]"

text \<open>The body of the \<^verbatim>\<open>forEach\<close> callback, and the loop over the tips.\<close>

definition tipDist :: "hand \<Rightarrow> NormalizedLandmark \<Rightarrow> nat \<Rightarrow> real option" where
  "tipDist landmarks wrist idx =
     do {
       tip \<leftarrow> landmarkAt landmarks idx;
       let dx = lm_x tip - lm_x wrist;
       let dy = lm_y tip - lm_y wrist;
       Some (sqrt (dx * dx + dy * dy))
     }"

fun sumTipDist :: "hand \<Rightarrow> NormalizedLandmark \<Rightarrow> nat list \<Rightarrow> real \<Rightarrow> real option" where
  "sumTipDist landmarks wrist [] totalDist = Some totalDist"
| "sumTipDist landmarks wrist (idx # rest) totalDist =
     do {
       d \<leftarrow> tipDist landmarks wrist idx;
       sumTipDist landmarks wrist rest (totalDist + d)
     }"

definition avgSpread :: "hand \<Rightarrow> real option" where
  "avgSpread landmarks =
     do {
       wrist \<leftarrow> landmarkAt landmarks 0;
       totalDist \<leftarrow> sumTipDist landmarks wrist tips 0;
       Some (totalDist / 5)
     }"

definition spreadNorm :: "real \<Rightarrow> real" where
  "spreadNorm spread = min (max ((spread - 0.15) * 4) 0) 1"

subsection \<open>One pass of the prediction loop (lines 72-177)\<close>

text \<open>
  The gesture logic of lines 93-173, run on the result of \<^verbatim>\<open>detectForVideo\<close>
  (\<^verbatim>\<open>results.landmarks\<close>, which may be missing). The setters run in program order, so
  when a read throws, the updates made before it stay: \<open>Inl\<close> carries the state reached.
  The debug drawing on the overlay canvas (lines 156-167 and 172) changes nothing of this
  state and is left out.
\<close>

definition interpretGestures :: "hand list option \<Rightarrow> control \<Rightarrow> (error \<times> control) + control" where
  "interpretGestures results st =
     (case results of
        Some (landmarks # others) \<Rightarrow>
          (let st1 = st\<lparr>activeHandCount := length (landmarks # others)\<rparr> in
           case countFingers landmarks of
             None \<Rightarrow> Inl (TypeError, st1)
           | Some count \<Rightarrow>
               (let st2 = updateMode count st1 in
                case avgSpread landmarks of
                  None \<Rightarrow> Inl (TypeError, st2)
                | Some spread \<Rightarrow> Inr (st2\<lparr>dispersionFactor := spreadNorm spread\<rparr>)))
      | _ \<Rightarrow> Inr (st\<lparr>activeHandCount := 0, dispersionFactor := 0.1\<rparr>))"

text \<open>
  A video frame as \<^verbatim>\<open>predictWebcam\<close> sees it: whether the refs are set (line 73), the
  video's \<^verbatim>\<open>currentTime\<close>, and what the hand tracker detects in it.
\<close>

record frame =
  refsReady :: bool
  currentTime :: real
  detected :: "hand list option"

text \<open>
  A pass either reschedules itself (line 176), returns early without rescheduling
  (line 73), or is cut short by an exception.
\<close>

datatype outcome = Rescheduled control | Returned control | Threw error control

definition predictWebcam :: "frame \<Rightarrow> control \<Rightarrow> outcome" where
  "predictWebcam f st =
     (if \<not> refsReady f then Returned st
      else if lastVideoTime st \<noteq> currentTime f then
        (case interpretGestures (detected f) (st\<lparr>lastVideoTime := currentTime f\<rparr>) of
           Inl (e, st') \<Rightarrow> Threw e st'
         | Inr st' \<Rightarrow> Rescheduled st')
      else Rescheduled st)"

fun stateOf :: "outcome \<Rightarrow> control" where
  "stateOf (Rescheduled st) = st"
| "stateOf (Returned st) = st"
| "stateOf (Threw e st) = st"

text \<open>
  The loop over the frames of a session: the next pass runs only when the previous one
  rescheduled itself.
\<close>

fun runLoop :: "frame list \<Rightarrow> control \<Rightarrow> control" where
  "runLoop [] st = st"
| "runLoop (f # fs) st =
     (case predictWebcam f st of
        Rescheduled st' \<Rightarrow> runLoop fs st'
      | Returned st' \<Rightarrow> st'
      | Threw e st' \<Rightarrow> st')"

subsection \<open>The specification's reading of a pose\<close>

text \<open>
  The four counted fingers with their tip and proximal-joint landmark numbers, and the
  number of them that are up, as the specification words it.
\<close>

definition countedFingers :: "(nat \<times> nat) list" where
  "countedFingers = [(8, 6), (12, 10), (16, 14), (20, 18)]"

definition fingerUp :: "hand \<Rightarrow> nat \<times> nat \<Rightarrow> bool" where
  "fingerUp landmarks f = (lm_y (landmarks ! fst f) < lm_y (landmarks ! snd f))"

definition extendedCount :: "hand \<Rightarrow> nat" where
  "extendedCount landmarks = length (filter (fingerUp landmarks) countedFingers)"

definition dist2 :: "NormalizedLandmark \<Rightarrow> NormalizedLandmark \<Rightarrow> real" where
  "dist2 a b = sqrt ((lm_x a - lm_x b)\<^sup>2 + (lm_y a - lm_y b)\<^sup>2)"

definition handSpread :: "hand \<Rightarrow> real" where
  "handSpread landmarks =
     (dist2 (landmarks ! 4) (landmarks ! 0) + dist2 (landmarks ! 8) (landmarks ! 0)
      + dist2 (landmarks ! 12) (landmarks ! 0) + dist2 (landmarks ! 16) (landmarks ! 0)
      + dist2 (landmarks ! 20) (landmarks ! 0)) / 5"

definition clamp :: "real \<Rightarrow> real \<Rightarrow> real \<Rightarrow> real" where
  "clamp v lo hi = (if v < lo then lo else if v > hi then hi else v)"

text \<open>Sample poses (21 landmarks each) on which the interpreter is evaluated below.\<close>

definition twoFingerPose :: hand where
  "twoFingerPose =
     [NormalizedLandmark 0.5 0.9 0,
      NormalizedLandmark 0.4 0.8 0, NormalizedLandmark 0.35 0.7 0,
      NormalizedLandmark 0.3 0.65 0, NormalizedLandmark 0.3 0.6 0,
      NormalizedLandmark 0.45 0.6 0, NormalizedLandmark 0.45 0.5 0,
      NormalizedLandmark 0.45 0.4 0, NormalizedLandmark 0.45 0.3 0,
      NormalizedLandmark 0.5 0.6 0, NormalizedLandmark 0.5 0.5 0,
      NormalizedLandmark 0.5 0.4 0, NormalizedLandmark 0.5 0.3 0,
      NormalizedLandmark 0.55 0.6 0, NormalizedLandmark 0.55 0.65 0,
      NormalizedLandmark 0.55 0.7 0, NormalizedLandmark 0.55 0.75 0,
      NormalizedLandmark 0.6 0.65 0, NormalizedLandmark 0.6 0.7 0,
      NormalizedLandmark 0.6 0.75 0, NormalizedLandmark 0.6 0.8 0]"

definition openPalmPose :: hand where
  "openPalmPose =
     [NormalizedLandmark 0.5 0.9 0,
      NormalizedLandmark 0.4 0.8 0, NormalizedLandmark 0.3 0.75 0,
      NormalizedLandmark 0.2 0.7 0, NormalizedLandmark 0.1 0.6 0,
      NormalizedLandmark 0.35 0.7 0, NormalizedLandmark 0.3 0.65 0,
      NormalizedLandmark 0.25 0.55 0, NormalizedLandmark 0.2 0.5 0,
      NormalizedLandmark 0.5 0.7 0, NormalizedLandmark 0.5 0.6 0,
      NormalizedLandmark 0.5 0.5 0, NormalizedLandmark 0.5 0.4 0,
      NormalizedLandmark 0.65 0.7 0, NormalizedLandmark 0.7 0.65 0,
      NormalizedLandmark 0.75 0.55 0, NormalizedLandmark 0.8 0.5 0,
      NormalizedLandmark 0.7 0.75 0, NormalizedLandmark 0.8 0.7 0,
      NormalizedLandmark 0.85 0.65 0, NormalizedLandmark 0.9 0.6 0]"

section \<open>Vectors and colours of the rendering library\<close>

text \<open>
  \<^verbatim>\<open>THREE.Vector3\<close> with the methods the program calls. They are the library's, not
  the repository's: \<^verbatim>\<open>sub\<close>, \<^verbatim>\<open>add\<close> and \<^verbatim>\<open>multiplyScalar\<close> work componentwise,
  \<^verbatim>\<open>length\<close> is the Euclidean norm, \<^verbatim>\<open>divideScalar(s)\<close> is
  \<^verbatim>\<open>multiplyScalar(1 / s)\<close> and \<^verbatim>\<open>normalize()\<close> is
  \<^verbatim>\<open>divideScalar(this.length() || 1)\<close>, which leaves the zero vector as it is. The
  methods mutate the receiver; here they return the new value.
\<close>

datatype Vector3 = Vector3 (vec_x: real) (vec_y: real) (vec_z: real)

definition sub_v :: "Vector3 \<Rightarrow> Vector3 \<Rightarrow> Vector3" where
  "sub_v a b = Vector3 (vec_x a - vec_x b) (vec_y a - vec_y b) (vec_z a - vec_z b)"

definition add_v :: "Vector3 \<Rightarrow> Vector3 \<Rightarrow> Vector3" where
  "add_v a b = Vector3 (vec_x a + vec_x b) (vec_y a + vec_y b) (vec_z a + vec_z b)"

definition multiplyScalar :: "Vector3 \<Rightarrow> real \<Rightarrow> Vector3" where
  "multiplyScalar a s = Vector3 (vec_x a * s) (vec_y a * s) (vec_z a * s)"

definition divideScalar :: "Vector3 \<Rightarrow> real \<Rightarrow> Vector3" where
  "divideScalar a s = multiplyScalar a (1 / s)"

definition length_v :: "Vector3 \<Rightarrow> real" where
  "length_v a = sqrt (vec_x a * vec_x a + vec_y a * vec_y a + vec_z a * vec_z a)"

definition normalize_v :: "Vector3 \<Rightarrow> Vector3" where
  "normalize_v a = divideScalar a (if length_v a = 0 then 1 else length_v a)"

text \<open>
  \<^verbatim>\<open>THREE.Color\<close> built from a hex string: each channel is its byte divided by 255.
  (A version of the library with colour management maps the channel on into linear
  space; that keeps 0 and 1 where they are and the gray strictly between them, which is
  all that is used below.)
\<close>

datatype Color = Color (col_r: real) (col_g: real) (col_b: real)

definition color1 :: Color where
  "color1 = Color 0 1 1"

definition color2 :: Color where
  "color2 = Color 1 0 1"

definition color3 :: Color where
  "color3 = Color 1 1 0"

definition colorIdle :: Color where
  "colorIdle = Color (68 / 255) (68 / 255) (68 / 255)"

section \<open>Text rasterizer (generateTextParticles)\<close>

text \<open>
  The canvas is the browser's: whether a 2D context can be had, the measured width of a
  text in the bold font of a given size (already rounded up by \<^verbatim>\<open>Math.ceil\<close>), and
  the RGBA bytes that \<^verbatim>\<open>getImageData\<close> returns after the text has been drawn on a
  canvas of the given width and height, or \<open>None\<close> when it throws (as it does for a
  rectangle without pixels). The source's parameter \<^verbatim>\<open>size\<close> is \<open>sz\<close> here.
\<close>

record canvas =
  hasContext :: bool
  measuredWidth :: "string \<Rightarrow> real \<Rightarrow> nat"
  imageData :: "string \<Rightarrow> real \<Rightarrow> nat \<Rightarrow> real \<Rightarrow> nat list option"

datatype pixel = Pixel (px_x: nat) (px_y: nat)

text \<open>
  Line 46-47: a read beyond the end of the byte array is \<^verbatim>\<open>undefined\<close>, and
  \<^verbatim>\<open>undefined > 128\<close> is false.
\<close>

definition alphaAbove :: "nat list \<Rightarrow> nat \<Rightarrow> bool" where
  "alphaAbove data index =
     (if index + 3 < length data then data ! (index + 3) > 128 else False)"

text \<open>The inner and the outer loop of lines 43-51, with the loop variable as argument.\<close>

function scanRow :: "nat list \<Rightarrow> nat \<Rightarrow> nat \<Rightarrow> nat \<Rightarrow> pixel list \<Rightarrow> pixel list" where
  "scanRow data width y x validPixels =
     (if x < width then
        (let index = (y * width + x) * 4 in
         scanRow data width y (x + 2)
           (if alphaAbove data index then validPixels @ [Pixel x y] else validPixels))
      else validPixels)"
  by pat_completeness auto
termination
  by (relation "measure (\<lambda>(data, width, y, x, validPixels). width - x)") auto

function scanRows :: "nat list \<Rightarrow> nat \<Rightarrow> real \<Rightarrow> nat \<Rightarrow> pixel list \<Rightarrow> pixel list" where
  "scanRows data width height y validPixels =
     (if real y < height then
        scanRows data width height (y + 2) (scanRow data width y 0 validPixels)
      else validPixels)"
  by pat_completeness auto
termination
  by (relation "measure (\<lambda>(data, width, height, y, validPixels). nat \<lceil>height\<rceil> - y)")
    (auto, linarith)

text \<open>The loop of lines 61-72; it is entered only with a non-empty \<open>validPixels\<close>.\<close>

function pointsLoop :: "pixel list \<Rightarrow> real \<Rightarrow> real \<Rightarrow> nat \<Rightarrow> nat \<Rightarrow> Vector3 list \<Rightarrow> Vector3 list" where
  "pointsLoop validPixels cx cy particleCount i points =
     (if i < particleCount then
        (let pixel = validPixels ! (i mod length validPixels);
             scale = 0.15;
             x = (real (px_x pixel) - cx) * scale;
             y = - (real (px_y pixel) - cy) * scale
         in pointsLoop validPixels cx cy particleCount (i + 1) (points @ [Vector3 x y 0]))
      else points)"
  by pat_completeness auto
termination
  by (relation "measure (\<lambda>(validPixels, cx, cy, particleCount, i, points). particleCount - i)")
    auto

definition generateTextParticles ::
  "canvas \<Rightarrow> string \<Rightarrow> real \<Rightarrow> nat \<Rightarrow> error + Vector3 list" where
  "generateTextParticles cv text sz particleCount =
     (if \<not> hasContext cv then Inr []
      else
        (let width = measuredWidth cv text sz;
             height = sz * 1.5
         in case imageData cv text sz width height of
              None \<Rightarrow> Inl IndexSizeError
            | Some data \<Rightarrow>
                (let validPixels = scanRows data width height 0 []
                 in if length validPixels = 0 then Inr []
                    else
                      (let cx = real width / 2;
                           cy = height / 2
                       in Inr (pointsLoop validPixels cx cy particleCount 0 [])))))"

text \<open>
  What the specification calls the above-threshold pixels of a bitmap, and its fixed rule
  from a pixel to a point: the centre of the bitmap goes to the origin, the vertical axis
  is flipped, both axes are scaled by 0.15, and z is 0.
\<close>

definition validPixelsOf :: "nat list \<Rightarrow> nat \<Rightarrow> real \<Rightarrow> pixel list" where
  "validPixelsOf data width height = scanRows data width height 0 []"

definition toWorld :: "real \<Rightarrow> real \<Rightarrow> pixel \<Rightarrow> Vector3" where
  "toWorld width height pixel =
     Vector3 (0.15 * (real (px_x pixel) - width / 2))
             (0.15 * (height / 2 - real (px_y pixel))) 0"

text \<open>
  A bitmap two pixels wide and three high with the pixels (0, 0), (0, 2) and (1, 2)
  covered, and a canvas that always renders it.
\<close>

definition sampleData :: "nat list" where
  "sampleData =
     [0, 0, 0, 255,  0, 0, 0, 0,
      0, 0, 0, 0,    0, 0, 0, 0,
      0, 0, 0, 200,  0, 0, 0, 255]"

definition sampleCanvas :: canvas where
  "sampleCanvas =
     \<lparr>hasContext = True,
      measuredWidth = (\<lambda>text sz. 2),
      imageData = (\<lambda>text sz width height. Some sampleData)\<rparr>"

section \<open>Particle simulator (ParticleSystem)\<close>

subsection \<open>State\<close>

definition PARTICLE_COUNT :: nat where
  "PARTICLE_COUNT = 4000"

record particle =
  position :: Vector3
  velocity :: Vector3
  targetIndex :: nat

text \<open>
  Lines 34-44: the particles are created once, at random positions and at rest. The draws
  of \<^verbatim>\<open>Math.random\<close> are a parameter: \<open>random k\<close> is the \<open>k\<close>-th draw.
\<close>

function initParticles :: "(nat \<Rightarrow> real) \<Rightarrow> nat \<Rightarrow> particle list \<Rightarrow> particle list" where
  "initParticles random i temp =
     (if i < PARTICLE_COUNT then
        initParticles random (i + 1)
          (temp @ [\<lparr>position = Vector3 ((random (3 * i) - 0.5) * 50)
                                        ((random (3 * i + 1) - 0.5) * 50)
                                        ((random (3 * i + 2) - 0.5) * 20),
                    velocity = Vector3 0 0 0,
                    targetIndex = i\<rparr>])
      else temp)"
  by pat_completeness auto
termination
  by (relation "measure (\<lambda>(random, i, temp). PARTICLE_COUNT - i)") auto

text \<open>
  The particles, the two flat buffers of lines 47-48 (three numbers per particle) and the
  rotation of the mesh.
\<close>

record scene =
  particles :: "particle list"
  positions :: "real list"
  colors :: "real list"
  rotationY :: real

definition initialScene :: "(nat \<Rightarrow> real) \<Rightarrow> scene" where
  "initialScene random =
     \<lparr>particles = initParticles random 0 [],
      positions = replicate (PARTICLE_COUNT * 3) 0,
      colors = replicate (PARTICLE_COUNT * 3) 0,
      rotationY = 0\<rparr>"

text \<open>
  The cache of target points per mode (line 31). \<^verbatim>\<open>targets.current[mode] || []\<close>
  falls back to the empty array only for a missing entry: an array is never falsy.
\<close>

type_synonym targetCache = "int \<rightharpoonup> Vector3 list"

definition currentTargetsOf :: "targetCache \<Rightarrow> int \<Rightarrow> Vector3 list" where
  "currentTargetsOf targets m = (case targets m of None \<Rightarrow> [] | Some pts \<Rightarrow> pts)"

subsection \<open>One frame (lines 65-155)\<close>

text \<open>Lines 73-78.\<close>

definition selectColor :: "props \<Rightarrow> Color" where
  "selectColor pr =
     (let targetColor = colorIdle in
      if hasHand pr then
        (let targetColor = (if mode pr = 1 then color1 else targetColor);
             targetColor = (if mode pr = 2 then color2 else targetColor);
             targetColor = (if mode pr = 3 then color3 else targetColor)
         in targetColor)
      else targetColor)"

text \<open>Lines 85-113: the target of particle \<open>i\<close> at elapsed time \<open>time\<close>.\<close>

definition targetVecOf :: "props \<Rightarrow> Vector3 list \<Rightarrow> real \<Rightarrow> nat \<Rightarrow> Vector3" where
  "targetVecOf pr currentTargets time i =
     (let hasTargets = (length currentTargets > 0) in
      if hasHand pr \<and> hasTargets then
        (let targetPoint = currentTargets ! (i mod length currentTargets);
             targetVec = targetPoint
         in if dispersion pr > 0.1 then
              (let noiseX = sin (real i * 0.1 + time) * 10 * dispersion pr;
                   noiseY = cos (real i * 0.13 + time) * 10 * dispersion pr;
                   noiseZ = sin (real i * 0.15 + time) * 15 * dispersion pr
               in add_v targetVec (Vector3 noiseX noiseY noiseZ))
            else targetVec)
      else
        (let radius = 10;
             theta = (real i / real PARTICLE_COUNT) * pi * 2 + time * 0.1;
             phi = real (i mod 100) / 100 * pi
         in Vector3 (sin theta * radius * sin phi)
                    (cos theta * radius)
                    (cos phi * radius * sin theta)))"

text \<open>Lines 116-128: steering, damping and the move.\<close>

definition physicsUpdate :: "real \<Rightarrow> Vector3 \<Rightarrow> particle \<Rightarrow> particle" where
  "physicsUpdate disp targetVec p =
     (let force = sub_v targetVec (position p);
          dist = length_v force;
          maxSpeed = 0.5 + (disp * 1.5);
          force = multiplyScalar (normalize_v force) (min (dist * 0.1) maxSpeed);
          vel = multiplyScalar (add_v (velocity p) force) 0.92;
          pos = add_v (position p) vel
      in p\<lparr>velocity := vel, position := pos\<rparr>)"

text \<open>Lines 144-146: the statement \<^verbatim>\<open>c += (target - c) * 0.05\<close> on one channel.\<close>

definition lerpChannel :: "real \<Rightarrow> real \<Rightarrow> real" where
  "lerpChannel target c = c + (target - c) * 0.05"

text \<open>
  The body of the loop for particle \<open>i\<close>. Reading \<^verbatim>\<open>particles[i]\<close> out of range throws
  (\<open>None\<close>); the buffers are typed arrays, where a write out of range is ignored, as
  \<open>xs[k := v]\<close> does.
\<close>

definition animateParticle ::
  "props \<Rightarrow> Vector3 list \<Rightarrow> Color \<Rightarrow> real \<Rightarrow> nat \<Rightarrow> scene \<Rightarrow> scene option" where
  "animateParticle pr currentTargets targetColor time i sc =
     (if i < length (particles sc) then
        (let p = particles sc ! i;
             targetVec = targetVecOf pr currentTargets time i;
             p = physicsUpdate (dispersion pr) targetVec p;
             ps = (particles sc)[i := p];
             pos = (positions sc)[i * 3 := vec_x (position p)];
             pos = pos[i * 3 + 1 := vec_y (position p)];
             pos = pos[i * 3 + 2 := vec_z (position p)];
             rIndex = i * 3;
             gIndex = i * 3 + 1;
             bIndex = i * 3 + 2;
             cs = colors sc;
             cs = cs[rIndex := lerpChannel (col_r targetColor) (cs ! rIndex)];
             cs = cs[gIndex := lerpChannel (col_g targetColor) (cs ! gIndex)];
             cs = cs[bIndex := lerpChannel (col_b targetColor) (cs ! bIndex)]
         in Some (sc\<lparr>particles := ps, positions := pos, colors := cs\<rparr>))
      else None)"

function animationLoop ::
  "props \<Rightarrow> Vector3 list \<Rightarrow> Color \<Rightarrow> real \<Rightarrow> nat \<Rightarrow> scene \<Rightarrow> scene option" where
  "animationLoop pr currentTargets targetColor time i sc =
     (if i < PARTICLE_COUNT then
        (case animateParticle pr currentTargets targetColor time i sc of
           None \<Rightarrow> None
         | Some sc' \<Rightarrow> animationLoop pr currentTargets targetColor time (i + 1) sc')
      else Some sc)"
  by pat_completeness auto
termination
  by (relation "measure (\<lambda>(pr, currentTargets, targetColor, time, i, sc). PARTICLE_COUNT - i)")
    auto

text \<open>
  The frame callback; \<open>mounted\<close> says whether \<^verbatim>\<open>meshRef.current\<close> is set (line 66).
\<close>

definition useFrame :: "bool \<Rightarrow> props \<Rightarrow> targetCache \<Rightarrow> real \<Rightarrow> scene \<Rightarrow> scene option" where
  "useFrame mounted pr targets time sc =
     (if \<not> mounted then Some sc
      else
        (let currentTargets = currentTargetsOf targets (mode pr);
             targetColor = selectColor pr
         in case animationLoop pr currentTargets targetColor time 0 sc of
              None \<Rightarrow> None
            | Some sc' \<Rightarrow> Some (sc'\<lparr>rotationY := time * 0.05\<rparr>)))"

subsection \<open>The specification's vocabulary for the simulator\<close>

text \<open>
  The steering force of a tick as the specification words it: the direction of
  \<open>target - position\<close> with the magnitude \<open>min (dist * 0.1) maxSpeed\<close>.
\<close>

definition maxSpeedOf :: "real \<Rightarrow> real" where
  "maxSpeedOf disp = 0.5 + 1.5 * disp"

definition distanceTo :: "Vector3 \<Rightarrow> particle \<Rightarrow> real" where
  "distanceTo target p = length_v (sub_v target (position p))"

definition steeringForce :: "real \<Rightarrow> Vector3 \<Rightarrow> particle \<Rightarrow> Vector3" where
  "steeringForce disp target p =
     (if distanceTo target p = 0 then Vector3 0 0 0
      else multiplyScalar (sub_v target (position p))
             (min (distanceTo target p * 0.1) (maxSpeedOf disp) / distanceTo target p))"

text \<open>The channel of a colour that the buffer holds at offset \<open>k\<close> of a particle.\<close>

definition channel :: "nat \<Rightarrow> Color \<Rightarrow> real" where
  "channel k c = (if k = 0 then col_r c else if k = 1 then col_g c else col_b c)"

text \<open>A particle steered toward one fixed target under a fixed dispersion for \<open>n\<close> ticks.\<close>

fun ticks :: "nat \<Rightarrow> real \<Rightarrow> Vector3 \<Rightarrow> particle \<Rightarrow> particle" where
  "ticks 0 disp target p = p"
| "ticks (Suc n) disp target p = physicsUpdate disp target (ticks n disp target p)"

text \<open>
  A particle has not gone past the target, seen from where it started, while the vector
  from it to the target still points the way it did at the start.
\<close>

definition dot_v :: "Vector3 \<Rightarrow> Vector3 \<Rightarrow> real" where
  "dot_v a b = vec_x a * vec_x b + vec_y a * vec_y b + vec_z a * vec_z b"

definition notPast :: "Vector3 \<Rightarrow> particle \<Rightarrow> particle \<Rightarrow> bool" where
  "notPast target start p =
     (dot_v (sub_v target (position p)) (sub_v target (position start)) \<ge> 0)"

text \<open>
  Motion on the line through start and target, in the coordinates \<open>(a, b)\<close>:
  the position is \<open>target - a * u\<close> and the velocity \<open>b * u\<close>, where \<open>u\<close> is the vector
  from the start to the target and \<open>len\<close> its length; \<open>ms\<close> is the value of
  \<^verbatim>\<open>maxSpeed\<close>. A run starts at \<open>(1, 0)\<close>: at the start, at rest.
\<close>

definition lineForce :: "real \<Rightarrow> real \<Rightarrow> real \<Rightarrow> real" where
  "lineForce ms len a = sgn a * min (\<bar>a\<bar> * len * 0.1) ms / len"

definition lineStep :: "real \<Rightarrow> real \<Rightarrow> real \<times> real \<Rightarrow> real \<times> real" where
  "lineStep ms len ab =
     (let a = fst ab;
          b = snd ab;
          b' = (b + lineForce ms len a) * 0.92
      in (a - b', b'))"

fun lineRun :: "nat \<Rightarrow> real \<Rightarrow> real \<Rightarrow> real \<times> real" where
  "lineRun 0 ms len = (1, 0)"
| "lineRun (Suc n) ms len = lineStep ms len (lineRun n ms len)"

definition onLine :: "Vector3 \<Rightarrow> Vector3 \<Rightarrow> nat \<Rightarrow> real \<times> real \<Rightarrow> particle" where
  "onLine target u k ab =
     \<lparr>position = sub_v target (multiplyScalar u (fst ab)),
      velocity = multiplyScalar u (snd ab),
      targetIndex = k\<rparr>"

text \<open>Sample inputs: a particle at rest at the origin, a target at distance 1, a scene.\<close>

definition restParticle :: particle where
  "restParticle = \<lparr>position = Vector3 0 0 0, velocity = Vector3 0 0 0, targetIndex = 0\<rparr>"

definition unitTarget :: Vector3 where
  "unitTarget = Vector3 1 0 0"

definition sampleScene :: scene where
  "sampleScene =
     \<lparr>particles = replicate PARTICLE_COUNT restParticle,
      positions = replicate (PARTICLE_COUNT * 3) 0,
      colors = replicate (PARTICLE_COUNT * 3) (1 / 2),
      rotationY = 0\<rparr>"

definition handProps :: props where
  "handProps = \<lparr>mode = 1, dispersion = 0, hasHand = True\<rparr>"

definition sampleTargets :: targetCache where
  "sampleTargets = [1 \<mapsto> [unitTarget, Vector3 0 2 0]]"

text \<open>The cache before the deferred rasterization of lines 51-58 has run.\<close>

definition emptyCache :: targetCache where
  "emptyCache = Map.empty"

text \<open>
  The idle formation of lines 104-112 for particle \<open>i\<close> at elapsed time \<open>time\<close>.
\<close>

definition idleFormation :: "real \<Rightarrow> nat \<Rightarrow> Vector3" where
  "idleFormation time i =
     Vector3 (sin ((real i / real PARTICLE_COUNT) * pi * 2 + time * 0.1) * 10
                * sin (real (i mod 100) / 100 * pi))
             (cos ((real i / real PARTICLE_COUNT) * pi * 2 + time * 0.1) * 10)
             (cos (real (i mod 100) / 100 * pi) * 10
                * sin ((real i / real PARTICLE_COUNT) * pi * 2 + time * 0.1))"

text \<open>A frame in which the hand tracker detects no hand, and sample frames.\<close>

definition noHand :: "frame \<Rightarrow> bool" where
  "noHand f = (detected f = None \<or> detected f = Some [])"

definition palmFrame :: frame where
  "palmFrame = \<lparr>refsReady = True, currentTime = 1, detected = Some [openPalmPose]\<rparr>"

definition twoFingerFrame :: frame where
  "twoFingerFrame = \<lparr>refsReady = True, currentTime = 1, detected = Some [twoFingerPose]\<rparr>"

definition emptyFrame :: frame where
  "emptyFrame = \<lparr>refsReady = True, currentTime = 2, detected = None\<rparr>"

section \<open>Properties of the gesture interpreter\<close>

lemma countFingers_full:
  assumes "length landmarks = 21"
  shows "countFingers landmarks = Some (extendedCount landmarks)"
  using assms
  by (simp add: countFingers_def isFingerUp_def landmarkAt_def extendedCount_def
      countedFingers_def fingerUp_def Let_def)

lemma avgSpread_full:
  assumes "length landmarks = 21"
  shows "avgSpread landmarks = Some (handSpread landmarks)"
  using assms
  by (simp add: avgSpread_def tips_def tipDist_def landmarkAt_def handSpread_def dist2_def
      Let_def power2_eq_square)

lemma interpretGestures_hand:
  assumes "length landmarks = 21"
  shows "interpretGestures (Some (landmarks # others)) st =
           Inr ((updateMode (extendedCount landmarks)
                  (st\<lparr>activeHandCount := Suc (length others)\<rparr>))
                \<lparr>dispersionFactor := spreadNorm (handSpread landmarks)\<rparr>)"
  using assms
  by (simp add: interpretGestures_def countFingers_full avgSpread_full)

lemma updateMode_fields:
  "targetMode (updateMode count st) =
     (if count = 1 then 1 else if count = 2 then 2 else if count \<ge> 3 then 3 else targetMode st)"
  "activeHandCount (updateMode count st) = activeHandCount st"
  "dispersionFactor (updateMode count st) = dispersionFactor st"
  "lastVideoTime (updateMode count st) = lastVideoTime st"
  by (simp_all add: updateMode_def)

lemma extendedCount_le: "extendedCount landmarks \<le> 4"
  unfolding extendedCount_def countedFingers_def
  using length_filter_le[of "fingerUp landmarks" "[(8, 6), (12, 10), (16, 14), (20, 18)]"]
  by simp

lemma spreadNorm_clamp: "spreadNorm s = clamp ((s - 0.15) * 4) 0 1"
  by (simp add: spreadNorm_def clamp_def min_def max_def)

lemma spreadNorm_range: "0 \<le> spreadNorm s" "spreadNorm s \<le> 1"
  by (simp_all add: spreadNorm_def)

lemma spreadNorm_fist: "s \<le> 0.15 \<Longrightarrow> spreadNorm s = 0"
  by (simp add: spreadNorm_def max_def)

lemma spreadNorm_open: "s \<ge> 0.4 \<Longrightarrow> spreadNorm s = 1"
  by (simp add: spreadNorm_def min_def max_def)

lemma length_twoFingerPose: "length twoFingerPose = 21"
  by (simp add: twoFingerPose_def)

lemma length_openPalmPose: "length openPalmPose = 21"
  by (simp add: openPalmPose_def)

lemma extendedCount_twoFingerPose: "extendedCount twoFingerPose = 2"
  by (simp add: extendedCount_def countedFingers_def fingerUp_def twoFingerPose_def)

lemma extendedCount_openPalmPose: "extendedCount openPalmPose = 4"
  by (simp add: extendedCount_def countedFingers_def fingerUp_def openPalmPose_def)

lemma handSpread_openPalmPose: "handSpread openPalmPose = 1 / 2"
  by (simp add: handSpread_def dist2_def openPalmPose_def power2_eq_square real_sqrt_divide)

subsection \<open>Finger count and mode\<close>

text \<open>
  Claim C2. For a hand-pose sample (21 landmarks) the interpreter returns normally, and
  the mode it leaves is decided by \<open>extendedCount\<close>, the number of the four fingers
  index, middle, ring and pinky (the thumb is not among them) whose tip landmark has a
  strictly smaller y than its proximal-joint landmark: count 1 gives mode 1, count 2 gives
  mode 2, count 3 or 4 gives mode 3, and count 0 leaves the mode of the previous tick.
  In particular a pose with index and middle up and ring and pinky down gives mode 2,
  with the hand active.
\<close>

theorem C2_finger_count_selects_mode:
  assumes "length landmarks = 21"
  shows "case interpretGestures (Some (landmarks # others)) st of
           Inl _ \<Rightarrow> False
         | Inr st' \<Rightarrow>
             extendedCount landmarks \<le> 4
             \<and> (extendedCount landmarks = 1 \<longrightarrow> targetMode st' = 1)
             \<and> (extendedCount landmarks = 2 \<longrightarrow> targetMode st' = 2)
             \<and> (extendedCount landmarks = 3 \<or> extendedCount landmarks = 4 \<longrightarrow> targetMode st' = 3)
             \<and> (extendedCount landmarks = 0 \<longrightarrow> targetMode st' = targetMode st)
             \<and> (lm_y (landmarks ! 8) < lm_y (landmarks ! 6)
                  \<and> lm_y (landmarks ! 12) < lm_y (landmarks ! 10)
                  \<and> \<not> lm_y (landmarks ! 16) < lm_y (landmarks ! 14)
                  \<and> \<not> lm_y (landmarks ! 20) < lm_y (landmarks ! 18)
                 \<longrightarrow> targetMode st' = 2 \<and> hasHand (sceneProps st'))"
proof -
  have two: "extendedCount landmarks = 2"
    if "lm_y (landmarks ! 8) < lm_y (landmarks ! 6)"
      "lm_y (landmarks ! 12) < lm_y (landmarks ! 10)"
      "\<not> lm_y (landmarks ! 16) < lm_y (landmarks ! 14)"
      "\<not> lm_y (landmarks ! 20) < lm_y (landmarks ! 18)"
    using that by (simp add: extendedCount_def countedFingers_def fingerUp_def)
  show ?thesis
    using extendedCount_le[of landmarks] two
    by (simp add: interpretGestures_hand[OF assms] updateMode_fields sceneProps_def)
qed

theorem C2_finger_count_witness:
  "length twoFingerPose = 21
   \<and> extendedCount twoFingerPose = 2
   \<and> (case interpretGestures (Some [twoFingerPose]) initialControl of
         Inl _ \<Rightarrow> False
       | Inr st' \<Rightarrow> targetMode st' = 2 \<and> hasHand (sceneProps st'))"
  using C2_finger_count_selects_mode[OF length_twoFingerPose,
      where others = "[]" and st = initialControl]
    length_twoFingerPose extendedCount_twoFingerPose
  by (simp add: twoFingerPose_def split: sum.splits)

subsection \<open>Dispersion\<close>

text \<open>
  Claim C3. For a hand-pose sample the dispersion that the interpreter outputs is
  \<open>clamp ((spread - 0.15) * 4) 0 1\<close>, where \<open>spread\<close> is the average of the five
  Euclidean distances, in the x-y plane of the normalized coordinates, from the wrist
  landmark to the tips of thumb, index, middle, ring and pinky. So it lies in [0, 1], is 0
  when the spread is at most 0.15 and 1 when the spread is at least 0.4.
\<close>

theorem C3_dispersion_is_clamped_spread:
  assumes "length landmarks = 21"
  shows "case interpretGestures (Some (landmarks # others)) st of
           Inl _ \<Rightarrow> False
         | Inr st' \<Rightarrow>
             dispersionFactor st' = clamp ((handSpread landmarks - 0.15) * 4) 0 1
             \<and> 0 \<le> dispersionFactor st' \<and> dispersionFactor st' \<le> 1
             \<and> (handSpread landmarks \<le> 0.15 \<longrightarrow> dispersionFactor st' = 0)
             \<and> (handSpread landmarks \<ge> 0.4 \<longrightarrow> dispersionFactor st' = 1)"
  using spreadNorm_range[of "handSpread landmarks"] spreadNorm_fist[of "handSpread landmarks"]
    spreadNorm_open[of "handSpread landmarks"] spreadNorm_clamp[of "handSpread landmarks"]
  by (simp add: interpretGestures_hand[OF assms])

theorem C3_dispersion_witness:
  "length openPalmPose = 21
   \<and> handSpread openPalmPose = 1 / 2
   \<and> (case interpretGestures (Some [openPalmPose]) initialControl of
         Inl _ \<Rightarrow> False
       | Inr st' \<Rightarrow> dispersionFactor st' = 1)"
  using C3_dispersion_is_clamped_spread[OF length_openPalmPose,
      where others = "[]" and st = initialControl]
    length_openPalmPose handSpread_openPalmPose
  by (auto split: sum.splits)

subsection \<open>Ticks without a hand\<close>

lemma interpretGestures_noHand:
  assumes "results = None \<or> results = Some []"
  shows "interpretGestures results st = Inr (st\<lparr>activeHandCount := 0, dispersionFactor := 0.1\<rparr>)"
  using assms by (auto simp: interpretGestures_def)

lemma predictWebcam_noHand:
  assumes "refsReady f" "currentTime f \<noteq> lastVideoTime st" "noHand f"
  shows "predictWebcam f st =
           Rescheduled (st\<lparr>lastVideoTime := currentTime f, activeHandCount := 0,
                            dispersionFactor := 0.1\<rparr>)"
  using assms by (simp add: predictWebcam_def noHand_def interpretGestures_noHand)

lemma predictWebcam_hand:
  assumes "refsReady f" "currentTime f \<noteq> lastVideoTime st"
    "detected f = Some (landmarks # others)" "length landmarks = 21"
  shows "predictWebcam f st =
           Rescheduled ((updateMode (extendedCount landmarks)
                  (st\<lparr>lastVideoTime := currentTime f, activeHandCount := Suc (length others)\<rparr>))
                \<lparr>dispersionFactor := spreadNorm (handSpread landmarks)\<rparr>)"
  using assms by (simp add: predictWebcam_def interpretGestures_hand)

text \<open>
  Claim C7. On a tick that processes a frame in which no hand is detected, the
  interpreter outputs dispersion 0.1 and an inactive hand and leaves the mode of the
  previous tick. In particular, after a tick on which a pose with three or four fingers
  up selected mode 3, a frame without a hand gives mode 3, hand inactive, dispersion 0.1.
\<close>

theorem C7_no_hand_tick:
  assumes "refsReady f" and "noHand f"
  shows "(currentTime f \<noteq> lastVideoTime st \<longrightarrow>
            (case predictWebcam f st of
               Rescheduled st' \<Rightarrow>
                 dispersion (sceneProps st') = 0.1 \<and> \<not> hasHand (sceneProps st')
                 \<and> mode (sceneProps st') = mode (sceneProps st)
             | _ \<Rightarrow> False))
         \<and> (refsReady g \<and> currentTime g \<noteq> lastVideoTime st \<and> currentTime f \<noteq> currentTime g
              \<and> detected g = Some (landmarks # others) \<and> length landmarks = 21
              \<and> 3 \<le> extendedCount landmarks \<longrightarrow>
            mode (sceneProps (runLoop [g, f] st)) = 3
            \<and> \<not> hasHand (sceneProps (runLoop [g, f] st))
            \<and> dispersion (sceneProps (runLoop [g, f] st)) = 0.1)"
proof (rule conjI[OF impI impI])
  assume "currentTime f \<noteq> lastVideoTime st"
  then show "case predictWebcam f st of
               Rescheduled st' \<Rightarrow>
                 dispersion (sceneProps st') = 0.1 \<and> \<not> hasHand (sceneProps st')
                 \<and> mode (sceneProps st') = mode (sceneProps st)
             | _ \<Rightarrow> False"
    using assms by (simp add: predictWebcam_noHand sceneProps_def)
next
  assume g: "refsReady g \<and> currentTime g \<noteq> lastVideoTime st \<and> currentTime f \<noteq> currentTime g
              \<and> detected g = Some (landmarks # others) \<and> length landmarks = 21
              \<and> 3 \<le> extendedCount landmarks"
  let ?st1 = "(updateMode (extendedCount landmarks)
                  (st\<lparr>lastVideoTime := currentTime g, activeHandCount := Suc (length others)\<rparr>))
                \<lparr>dispersionFactor := spreadNorm (handSpread landmarks)\<rparr>"
  have s1: "predictWebcam g st = Rescheduled ?st1"
    using g predictWebcam_hand[of g st landmarks others] by simp
  have fresh: "currentTime f \<noteq> lastVideoTime ?st1"
    using g by (simp add: updateMode_fields)
  have m1: "targetMode ?st1 = 3"
    using g by (simp add: updateMode_fields)
  have run: "runLoop [g, f] st =
      ?st1\<lparr>lastVideoTime := currentTime f, activeHandCount := 0, dispersionFactor := 0.1\<rparr>"
    using s1 predictWebcam_noHand[OF assms(1) fresh assms(2)] by simp
  show "mode (sceneProps (runLoop [g, f] st)) = 3
            \<and> \<not> hasHand (sceneProps (runLoop [g, f] st))
            \<and> dispersion (sceneProps (runLoop [g, f] st)) = 0.1"
    unfolding run using m1 by (simp add: sceneProps_def)
qed

theorem C7_no_hand_witness:
  "refsReady emptyFrame \<and> noHand emptyFrame \<and> refsReady palmFrame
   \<and> extendedCount openPalmPose = 4
   \<and> mode (sceneProps (runLoop [palmFrame, emptyFrame] initialControl)) = 3
   \<and> \<not> hasHand (sceneProps (runLoop [palmFrame, emptyFrame] initialControl))
   \<and> dispersion (sceneProps (runLoop [palmFrame, emptyFrame] initialControl)) = 0.1"
proof -
  have a: "refsReady emptyFrame" "noHand emptyFrame"
    by (simp_all add: emptyFrame_def noHand_def)
  show ?thesis
    using C7_no_hand_tick[OF a, where g = palmFrame and st = initialControl
        and landmarks = openPalmPose and others = "[]"]
      a extendedCount_openPalmPose length_openPalmPose
    by (simp add: palmFrame_def emptyFrame_def initialControl_def)
qed

subsection \<open>The mode before any hand is seen\<close>

lemma predictWebcam_noHand_keeps:
  assumes "noHand f"
  shows "targetMode (stateOf (predictWebcam f st)) = targetMode st"
    and "activeHandCount st = 0 \<Longrightarrow> activeHandCount (stateOf (predictWebcam f st)) = 0"
    and "predictWebcam f st = Threw e st' \<Longrightarrow> False"
  using assms
  by (auto simp: predictWebcam_def noHand_def interpretGestures_noHand split: if_splits)

lemma runLoop_noHand:
  assumes "\<forall>f \<in> set frames. noHand f" "activeHandCount st = 0"
  shows "targetMode (runLoop frames st) = targetMode st \<and> activeHandCount (runLoop frames st) = 0"
  using assms
proof (induction frames arbitrary: st)
  case Nil
  then show ?case by simp
next
  case (Cons f fs)
  have nf: "noHand f" using Cons.prems by simp
  note keep = predictWebcam_noHand_keeps[OF nf, of st]
  show ?case
  proof (cases "predictWebcam f st")
    case (Rescheduled st')
    then have "targetMode st' = targetMode st" "activeHandCount st' = 0"
      using keep(1) keep(2)[OF Cons.prems(2)] by simp_all
    then show ?thesis
      using Cons.IH[of st'] Cons.prems(1) Rescheduled by simp
  next
    case (Returned st')
    then show ?thesis
      using keep(1) keep(2)[OF Cons.prems(2)] by simp
  next
    case (Threw e st')
    then show ?thesis using keep(3) by blast
  qed
qed

text \<open>
  Claim C6, as stated: before any hand has been detected the mode consumed by the
  particle simulator is 0. It is not: the state starts with mode 1 (line 19).
\<close>

theorem C6_default_mode_counterexample:
  "mode (sceneProps (runLoop [] initialControl)) = 1
   \<and> mode (sceneProps (runLoop [] initialControl)) \<noteq> 0"
  by (simp add: sceneProps_def initialControl_def)

text \<open>
  Claim C6, amended. The mode is always well-defined with default value 1: as long as no
  frame has shown a hand, the mode consumed by the particle simulator is 1, the hand is
  not active, and the simulator's target colour is the idle gray, chosen by the
  hand-active flag.
\<close>

theorem C6_default_mode_is_one:
  assumes "\<forall>f \<in> set frames. noHand f"
  shows "mode (sceneProps (runLoop frames initialControl)) = 1
         \<and> \<not> hasHand (sceneProps (runLoop frames initialControl))
         \<and> selectColor (sceneProps (runLoop frames initialControl)) = colorIdle"
  using runLoop_noHand[OF assms, of initialControl]
  by (simp add: sceneProps_def initialControl_def selectColor_def)

theorem C6_default_mode_witness:
  "noHand emptyFrame \<and> noHand (emptyFrame\<lparr>detected := Some []\<rparr>)
   \<and> mode (sceneProps (runLoop [emptyFrame, emptyFrame\<lparr>detected := Some []\<rparr>] initialControl)) = 1"
proof -
  have a: "\<forall>f \<in> set [emptyFrame, emptyFrame\<lparr>detected := Some []\<rparr>]. noHand f"
    by (simp add: noHand_def emptyFrame_def)
  show ?thesis
    using C6_default_mode_is_one[OF a] a by simp
qed

subsection \<open>The mode is 1, 2 or 3\<close>

lemma interpretGestures_mode:
  "(case interpretGestures results st of Inl (e, st') \<Rightarrow> targetMode st' | Inr st' \<Rightarrow> targetMode st')
     = targetMode st
   \<or> ((case interpretGestures results st of Inl (e, st') \<Rightarrow> targetMode st' | Inr st' \<Rightarrow> targetMode st')
        \<in> {1, 2, 3}
      \<and> (\<exists>landmarks others count. results = Some (landmarks # others)
            \<and> countFingers landmarks = Some count \<and> 1 \<le> count))"
  by (auto simp: interpretGestures_def updateMode_def Let_def
      split: option.splits list.splits)

lemma predictWebcam_mode:
  "targetMode (stateOf (predictWebcam f st)) = targetMode st
   \<or> (targetMode (stateOf (predictWebcam f st)) \<in> {1, 2, 3}
      \<and> (\<exists>landmarks others count. detected f = Some (landmarks # others)
            \<and> countFingers landmarks = Some count \<and> 1 \<le> count))"
  using interpretGestures_mode[of "detected f" "st\<lparr>lastVideoTime := currentTime f\<rparr>"]
  by (auto simp: predictWebcam_def split: sum.splits prod.splits)

lemma runLoop_mode:
  assumes "targetMode st \<in> {1, 2, 3}"
  shows "targetMode (runLoop frames st) \<in> {1, 2, 3}"
  using assms
proof (induction frames arbitrary: st)
  case Nil
  then show ?case by simp
next
  case (Cons f fs)
  have step: "targetMode (stateOf (predictWebcam f st)) \<in> {1, 2, 3}"
    using predictWebcam_mode[of f st] Cons.prems by auto
  show ?case
  proof (cases "predictWebcam f st")
    case (Rescheduled st')
    then show ?thesis using step Cons.IH[of st'] by simp
  next
    case (Returned st')
    then show ?thesis using step by simp
  next
    case (Threw e st')
    then show ?thesis using step by simp
  qed
qed

lemma selectColor_idle_iff:
  assumes "mode pr \<in> {1, 2, 3}"
  shows "selectColor pr = colorIdle \<longleftrightarrow> \<not> hasHand pr"
  using assms
  by (auto simp: selectColor_def Let_def color1_def color2_def color3_def colorIdle_def)

lemma targetVecOf_idle:
  "\<not> hasHand pr \<Longrightarrow> targetVecOf pr currentTargets time i = idleFormation time i"
  by (simp add: targetVecOf_def idleFormation_def Let_def)

lemma targetVecOf_text:
  "hasHand pr \<Longrightarrow> currentTargets \<noteq> [] \<Longrightarrow> \<not> dispersion pr > 0.1 \<Longrightarrow>
     targetVecOf pr currentTargets time i = currentTargets ! (i mod length currentTargets)"
  by (simp add: targetVecOf_def Let_def)

lemma targetVecOf_no_targets:
  "\<not> hasHand pr \<or> currentTargets = [] \<Longrightarrow>
     targetVecOf pr currentTargets time i = idleFormation time i"
  by (auto simp: targetVecOf_def idleFormation_def Let_def)

lemma targetVecOf_active:
  "hasHand pr \<Longrightarrow> currentTargets \<noteq> [] \<Longrightarrow>
     targetVecOf pr currentTargets time i =
       (if dispersion pr > 0.1 then
          add_v (currentTargets ! (i mod length currentTargets))
            (Vector3 (sin (real i * 0.1 + time) * 10 * dispersion pr)
                     (cos (real i * 0.13 + time) * 10 * dispersion pr)
                     (sin (real i * 0.15 + time) * 15 * dispersion pr))
        else currentTargets ! (i mod length currentTargets))"
  by (simp add: targetVecOf_def Let_def)

lemma countFingers_twoFingerPose: "countFingers twoFingerPose = Some 2"
  by (simp add: countFingers_full length_twoFingerPose extendedCount_twoFingerPose)

lemma predictWebcam_twoFingerFrame:
  "predictWebcam twoFingerFrame initialControl =
      Rescheduled ((updateMode 2 (initialControl\<lparr>lastVideoTime := 1, activeHandCount := 1\<rparr>))
                     \<lparr>dispersionFactor := spreadNorm (handSpread twoFingerPose)\<rparr>)"
  using predictWebcam_hand[of twoFingerFrame initialControl twoFingerPose "[]"]
  by (simp add: twoFingerFrame_def initialControl_def length_twoFingerPose
      extendedCount_twoFingerPose)

text \<open>
  Claim C10, as stated: the mode is 1, 2 or 3 throughout, so that the idle behaviour and
  the idle gray are triggered solely by the hand-active flag. For the idle behaviour this
  fails: after a frame with two fingers up the hand is active and the mode is 2, and while
  the cache holds no points for that mode (the rasterization is deferred, and may return
  nothing) the target of a particle is still its point of the idle formation.
\<close>

theorem C10_idle_with_hand_counterexample:
  "hasHand (sceneProps (runLoop [twoFingerFrame] initialControl))
   \<and> mode (sceneProps (runLoop [twoFingerFrame] initialControl)) = 2
   \<and> currentTargetsOf emptyCache (mode (sceneProps (runLoop [twoFingerFrame] initialControl)))
       = []
   \<and> targetVecOf (sceneProps (runLoop [twoFingerFrame] initialControl))
        (currentTargetsOf emptyCache (mode (sceneProps (runLoop [twoFingerFrame] initialControl))))
        0 0
       = idleFormation 0 0"
proof -
  have h: "hasHand (sceneProps (runLoop [twoFingerFrame] initialControl))"
    and m: "mode (sceneProps (runLoop [twoFingerFrame] initialControl)) = 2"
    by (simp_all add: predictWebcam_twoFingerFrame updateMode_fields sceneProps_def)
  have e: "currentTargetsOf emptyCache
             (mode (sceneProps (runLoop [twoFingerFrame] initialControl))) = []"
    by (simp add: currentTargetsOf_def emptyCache_def)
  show ?thesis
    using h m e by (simp add: targetVecOf_no_targets)
qed

text \<open>
  Claim C10, amended. The mode is 1, 2 or 3 at every point of every run: it starts as 1,
  and a pass of the prediction loop changes it only to 1, 2 or 3 and only when a hand is
  detected whose count of extended non-thumb fingers is at least 1. So the mode that the
  simulator consumes is never 0. The idle gray is the target colour exactly when the hand
  is not active. The idle formation is the target when the hand is not active or the
  point set of the mode is missing or empty; with an active hand and a non-empty point
  set the target is the text point, with the noise added when the dispersion exceeds 0.1.
  Neither is triggered by a mode of 0.
\<close>

theorem C10_mode_and_idle_triggers:
  "targetMode initialControl = 1
   \<and> (targetMode (runLoop frames initialControl) = 1
       \<or> targetMode (runLoop frames initialControl) = 2
       \<or> targetMode (runLoop frames initialControl) = 3)
   \<and> mode (sceneProps (runLoop frames initialControl)) \<noteq> 0
   \<and> (targetMode (stateOf (predictWebcam f st)) \<noteq> targetMode st \<longrightarrow>
        (targetMode (stateOf (predictWebcam f st)) = 1
         \<or> targetMode (stateOf (predictWebcam f st)) = 2
         \<or> targetMode (stateOf (predictWebcam f st)) = 3)
        \<and> (\<exists>landmarks others count. detected f = Some (landmarks # others)
              \<and> countFingers landmarks = Some count \<and> 1 \<le> count))
   \<and> (selectColor (sceneProps (runLoop frames initialControl)) = colorIdle
        \<longleftrightarrow> \<not> hasHand (sceneProps (runLoop frames initialControl)))
   \<and> (\<not> hasHand (sceneProps (runLoop frames initialControl)) \<or> currentTargets = [] \<longrightarrow>
        targetVecOf (sceneProps (runLoop frames initialControl)) currentTargets time i
          = idleFormation time i)
   \<and> (hasHand (sceneProps (runLoop frames initialControl)) \<and> currentTargets \<noteq> [] \<longrightarrow>
        targetVecOf (sceneProps (runLoop frames initialControl)) currentTargets time i
          = (if dispersion (sceneProps (runLoop frames initialControl)) > 0.1 then
               add_v (currentTargets ! (i mod length currentTargets))
                 (Vector3
                   (sin (real i * 0.1 + time) * 10
                      * dispersion (sceneProps (runLoop frames initialControl)))
                   (cos (real i * 0.13 + time) * 10
                      * dispersion (sceneProps (runLoop frames initialControl)))
                   (sin (real i * 0.15 + time) * 15
                      * dispersion (sceneProps (runLoop frames initialControl))))
             else currentTargets ! (i mod length currentTargets)))"
proof -
  let ?st = "runLoop frames initialControl"
  have inv: "targetMode ?st \<in> {1, 2, 3}"
    by (rule runLoop_mode) (simp add: initialControl_def)
  then have m: "mode (sceneProps ?st) \<in> {1, 2, 3}"
    by (simp add: sceneProps_def)
  have col: "selectColor (sceneProps ?st) = colorIdle \<longleftrightarrow> \<not> hasHand (sceneProps ?st)"
    by (rule selectColor_idle_iff[OF m])
  have step: "targetMode (stateOf (predictWebcam f st)) \<noteq> targetMode st \<longrightarrow>
        (targetMode (stateOf (predictWebcam f st)) = 1
         \<or> targetMode (stateOf (predictWebcam f st)) = 2
         \<or> targetMode (stateOf (predictWebcam f st)) = 3)
        \<and> (\<exists>landmarks others count. detected f = Some (landmarks # others)
              \<and> countFingers landmarks = Some count \<and> 1 \<le> count)"
    using predictWebcam_mode[of f st] by auto
  have idle: "\<not> hasHand (sceneProps ?st) \<or> currentTargets = [] \<longrightarrow>
        targetVecOf (sceneProps ?st) currentTargets time i = idleFormation time i"
    using targetVecOf_no_targets[of "sceneProps ?st" currentTargets time i] by blast
  have tgt: "hasHand (sceneProps ?st) \<and> currentTargets \<noteq> [] \<longrightarrow>
        targetVecOf (sceneProps ?st) currentTargets time i
          = (if dispersion (sceneProps ?st) > 0.1 then
               add_v (currentTargets ! (i mod length currentTargets))
                 (Vector3
                   (sin (real i * 0.1 + time) * 10 * dispersion (sceneProps ?st))
                   (cos (real i * 0.13 + time) * 10 * dispersion (sceneProps ?st))
                   (sin (real i * 0.15 + time) * 15 * dispersion (sceneProps ?st)))
             else currentTargets ! (i mod length currentTargets))"
    using targetVecOf_active[of "sceneProps ?st" currentTargets time i] by blast
  have init: "targetMode initialControl = 1"
    by (simp add: initialControl_def)
  have nz: "mode (sceneProps ?st) \<noteq> 0"
    using m by auto
  have one: "targetMode ?st = 1 \<or> targetMode ?st = 2 \<or> targetMode ?st = 3"
    using inv by simp
  show ?thesis
    by (intro conjI init one nz step col idle tgt)
qed

theorem C10_mode_witness:
  "targetMode initialControl = 1
   \<and> targetMode (stateOf (predictWebcam twoFingerFrame initialControl)) = 2
   \<and> detected twoFingerFrame = Some [twoFingerPose]
   \<and> countFingers twoFingerPose = Some 2
   \<and> \<not> hasHand (sceneProps (runLoop [] initialControl))
   \<and> selectColor (sceneProps (runLoop [] initialControl)) = colorIdle
   \<and> targetVecOf (sceneProps (runLoop [] initialControl)) [] 0 0 = idleFormation 0 0
   \<and> hasHand (sceneProps (runLoop [emptyFrame, twoFingerFrame] initialControl))
   \<and> targetMode (runLoop [emptyFrame, twoFingerFrame] initialControl) = 2
   \<and> dispersion (sceneProps (runLoop [emptyFrame, twoFingerFrame] initialControl)) \<le> 1
   \<and> selectColor (sceneProps (runLoop [emptyFrame, twoFingerFrame] initialControl)) = color2
   \<and> targetVecOf (sceneProps (runLoop [emptyFrame, twoFingerFrame] initialControl))
        [] 0 0 = idleFormation 0 0"
proof -
  let ?run = "runLoop [emptyFrame, twoFingerFrame] initialControl"
  have nh: "\<not> hasHand (sceneProps (runLoop [] initialControl))"
    by (simp add: sceneProps_def initialControl_def)
  let ?st2 = "initialControl\<lparr>lastVideoTime := currentTime emptyFrame, activeHandCount := 0,
                               dispersionFactor := 0.1\<rparr>"
  let ?st3 = "(updateMode (extendedCount twoFingerPose)
                 (?st2\<lparr>lastVideoTime := currentTime twoFingerFrame,
                        activeHandCount := Suc (length ([]::hand list))\<rparr>))
               \<lparr>dispersionFactor := spreadNorm (handSpread twoFingerPose)\<rparr>"
  have e: "predictWebcam emptyFrame initialControl = Rescheduled ?st2"
    by (rule predictWebcam_noHand) (simp_all add: emptyFrame_def noHand_def initialControl_def)
  have p2: "predictWebcam twoFingerFrame ?st2 = Rescheduled ?st3"
    by (rule predictWebcam_hand)
      (simp_all add: twoFingerFrame_def emptyFrame_def length_twoFingerPose)
  have r: "?run = ?st3"
    by (simp only: runLoop.simps e p2 outcome.case)
  have h: "hasHand (sceneProps ?run)" and m: "targetMode ?run = 2"
    and d: "dispersion (sceneProps ?run) \<le> 1"
    unfolding r
    by (simp_all add: updateMode_fields sceneProps_def spreadNorm_range
        extendedCount_twoFingerPose)
  have c: "selectColor (sceneProps ?run) = color2"
    using h m by (simp add: selectColor_def sceneProps_def)
  have s: "targetMode (stateOf (predictWebcam twoFingerFrame initialControl)) = 2"
    by (simp add: predictWebcam_twoFingerFrame updateMode_fields)
  have t: "detected twoFingerFrame = Some [twoFingerPose]"
    by (simp add: twoFingerFrame_def)
  note a = C10_mode_and_idle_triggers[where frames = "[]" and f = twoFingerFrame
        and st = initialControl and currentTargets = "[]" and time = 0 and i = 0]
  note b = C10_mode_and_idle_triggers[where frames = "[emptyFrame, twoFingerFrame]"
        and f = twoFingerFrame and st = initialControl and currentTargets = "[]"
        and time = 0 and i = 0]
  show ?thesis
    using a b nh h m d c s t countFingers_twoFingerPose by simp
qed

subsection \<open>The dispersion stays in the unit interval\<close>

lemma interpretGestures_dispersion:
  assumes "0 \<le> dispersionFactor st \<and> dispersionFactor st \<le> 1"
  shows "case interpretGestures results st of
           Inl (e, st') \<Rightarrow> 0 \<le> dispersionFactor st' \<and> dispersionFactor st' \<le> 1
         | Inr st' \<Rightarrow> 0 \<le> dispersionFactor st' \<and> dispersionFactor st' \<le> 1"
  using assms
  by (auto simp: interpretGestures_def updateMode_fields spreadNorm_range Let_def
      split: option.splits list.splits)

lemma predictWebcam_dispersion:
  assumes "0 \<le> dispersionFactor st \<and> dispersionFactor st \<le> 1"
  shows "0 \<le> dispersionFactor (stateOf (predictWebcam f st))
         \<and> dispersionFactor (stateOf (predictWebcam f st)) \<le> 1"
proof -
  have "0 \<le> dispersionFactor (st\<lparr>lastVideoTime := currentTime f\<rparr>)
        \<and> dispersionFactor (st\<lparr>lastVideoTime := currentTime f\<rparr>) \<le> 1"
    using assms by simp
  from interpretGestures_dispersion[OF this, of "detected f"] assms
  show ?thesis
    by (auto simp: predictWebcam_def split: sum.splits prod.splits)
qed

lemma runLoop_dispersion:
  assumes "0 \<le> dispersionFactor st \<and> dispersionFactor st \<le> 1"
  shows "0 \<le> dispersionFactor (runLoop frames st) \<and> dispersionFactor (runLoop frames st) \<le> 1"
  using assms
proof (induction frames arbitrary: st)
  case Nil
  then show ?case by simp
next
  case (Cons f fs)
  note step = predictWebcam_dispersion[OF Cons.prems, of f]
  show ?case
  proof (cases "predictWebcam f st")
    case (Rescheduled st')
    then show ?thesis using step Cons.IH[of st'] by simp
  next
    case (Returned st')
    then show ?thesis using step by simp
  next
    case (Threw e st')
    then show ?thesis using step by simp
  qed
qed

lemma maxSpeed_of_run:
  "1 / 2 \<le> maxSpeedOf (dispersion (sceneProps (runLoop frames initialControl)))"
proof -
  have "0 \<le> dispersionFactor initialControl \<and> dispersionFactor initialControl \<le> 1"
    by (simp add: initialControl_def)
  from runLoop_dispersion[OF this, of frames] show ?thesis
    by (simp add: maxSpeedOf_def sceneProps_def)
qed

section \<open>Properties of the text rasterizer\<close>

declare scanRow.simps [simp del] scanRows.simps [simp del] pointsLoop.simps [simp del]

lemma pointsLoop_eq:
  "pointsLoop validPixels cx cy particleCount i points =
     points @ map (\<lambda>j. Vector3
                    ((real (px_x (validPixels ! (j mod length validPixels))) - cx) * 0.15)
                    (- (real (px_y (validPixels ! (j mod length validPixels))) - cy) * 0.15) 0)
                [i..<particleCount]"
  (is "_ = points @ map ?pt _")
proof (induction "particleCount - i" arbitrary: i points)
  case 0
  then show ?case
    by (subst pointsLoop.simps) simp
next
  case (Suc k)
  then have lt: "i < particleCount" and k: "k = particleCount - (i + 1)"
    by simp_all
  have "pointsLoop validPixels cx cy particleCount i points =
          pointsLoop validPixels cx cy particleCount (i + 1) (points @ [?pt i])"
    by (subst pointsLoop.simps) (simp add: lt Let_def)
  also have "\<dots> = (points @ [?pt i]) @ map ?pt [i + 1..<particleCount]"
    by (rule Suc.hyps(1)[OF k])
  also have "\<dots> = points @ map ?pt [i..<particleCount]"
    by (simp add: upt_conv_Cons[OF lt])
  finally show ?case .
qed

lemma generateTextParticles_eq:
  assumes "hasContext cv"
    and "imageData cv text sz (measuredWidth cv text sz) (sz * 1.5) = Some data"
  shows "generateTextParticles cv text sz particleCount =
     Inr (if validPixelsOf data (measuredWidth cv text sz) (sz * 1.5) = [] then []
          else map (\<lambda>j. toWorld (real (measuredWidth cv text sz)) (sz * 1.5)
                 (validPixelsOf data (measuredWidth cv text sz) (sz * 1.5)
                   ! (j mod length (validPixelsOf data (measuredWidth cv text sz) (sz * 1.5)))))
             [0..<particleCount])"
  using assms
  by (simp add: generateTextParticles_def validPixelsOf_def Let_def pointsLoop_eq toWorld_def
      algebra_simps)

text \<open>
  Claim C1. For every text, font size and number of points: when a 2D context is there and
  the bitmap can be read, the rasterizer returns normally; with \<open>M > 0\<close> above-threshold
  pixels found by the scan it returns exactly \<open>maxPoints\<close> points, the \<open>i\<close>-th being the
  valid pixel number \<open>i mod M\<close> moved so that the centre of the bitmap is the origin, with
  the vertical axis flipped, both axes scaled by 0.15 and z = 0; with \<open>M = 0\<close> it returns no
  points.
\<close>

theorem C1_rasterize_wraps_valid_pixels:
  assumes "hasContext cv"
    and "imageData cv text sz (measuredWidth cv text sz) (sz * 1.5) = Some data"
    and "validPixels = validPixelsOf data (measuredWidth cv text sz) (sz * 1.5)"
  shows "case generateTextParticles cv text sz maxPoints of
           Inl _ \<Rightarrow> False
         | Inr points \<Rightarrow>
             (length validPixels = 0 \<longrightarrow> points = [])
             \<and> (0 < length validPixels \<longrightarrow>
                  length points = maxPoints
                  \<and> (\<forall>i < maxPoints.
                        points ! i =
                          toWorld (real (measuredWidth cv text sz)) (sz * 1.5)
                            (validPixels ! (i mod length validPixels))))"
  by (simp add: generateTextParticles_eq[OF assms(1,2)] assms(3))

lemma validPixelsOf_sampleData:
  "validPixelsOf sampleData 2 (2 * 1.5) = [Pixel 0 0, Pixel 0 2]"
  by (simp add: validPixelsOf_def sampleData_def scanRows.simps scanRow.simps alphaAbove_def
      Let_def)

theorem C1_rasterize_witness:
  "hasContext sampleCanvas
   \<and> validPixelsOf sampleData 2 (2 * 1.5) = [Pixel 0 0, Pixel 0 2]
   \<and> (case generateTextParticles sampleCanvas ''Hi'' 2 3 of
         Inl _ \<Rightarrow> False
       | Inr points \<Rightarrow>
           length points = 3
           \<and> points ! 0 = Vector3 (- 0.15) 0.225 0
           \<and> points ! 1 = Vector3 (- 0.15) (- 0.075) 0
           \<and> points ! 2 = Vector3 (- 0.15) 0.225 0)"
proof -
  have c: "hasContext sampleCanvas"
    by (simp add: sampleCanvas_def)
  have d: "imageData sampleCanvas ''Hi'' 2 (measuredWidth sampleCanvas ''Hi'' 2) (2 * 1.5)
             = Some sampleData"
    by (simp add: sampleCanvas_def)
  have w: "measuredWidth sampleCanvas ''Hi'' 2 = 2"
    by (simp add: sampleCanvas_def)
  have v: "[Pixel 0 0, Pixel 0 2] =
      validPixelsOf sampleData (measuredWidth sampleCanvas ''Hi'' 2) (2 * 1.5)"
    by (simp only: w validPixelsOf_sampleData)
  show ?thesis
    using C1_rasterize_wraps_valid_pixels[OF c d v, of 3] c validPixelsOf_sampleData
    by (simp add: w toWorld_def numeral_2_eq_2[symmetric] split: sum.splits)
qed

section \<open>Properties of the particle simulator\<close>

subsection \<open>The frame loop visits every particle\<close>

declare animationLoop.simps [simp del] initParticles.simps [simp del]

lemma animateParticle_Some:
  assumes "i < length (particles sc)"
  shows "\<exists>sc1. animateParticle pr cts tc time i sc = Some sc1
           \<and> particles sc1 =
               (particles sc)[i := physicsUpdate (dispersion pr) (targetVecOf pr cts time i)
                                    (particles sc ! i)]
           \<and> colors sc1 =
               (colors sc)[i * 3 := lerpChannel (col_r tc) (colors sc ! (i * 3)),
                           i * 3 + 1 := lerpChannel (col_g tc) (colors sc ! (i * 3 + 1)),
                           i * 3 + 2 := lerpChannel (col_b tc) (colors sc ! (i * 3 + 2))]
           \<and> rotationY sc1 = rotationY sc"
  using assms by (simp add: animateParticle_def Let_def)

lemma colors_step_nth:
  assumes "k < 3" "3 * j + k < length cs"
  shows "cs[i * 3 := lerpChannel (col_r tc) (cs ! (i * 3)),
            i * 3 + 1 := lerpChannel (col_g tc) (cs ! (i * 3 + 1)),
            i * 3 + 2 := lerpChannel (col_b tc) (cs ! (i * 3 + 2))] ! (3 * j + k)
         = (if j = i then lerpChannel (channel k tc) (cs ! (3 * j + k)) else cs ! (3 * j + k))"
proof (cases "j = i")
  case True
  consider "k = 0" | "k = 1" | "k = 2" using assms(1) by linarith
  then show ?thesis
    using assms(2) True by cases (simp_all add: channel_def mult.commute)
next
  case False
  then have "3 * j + k \<noteq> i * 3" "3 * j + k \<noteq> i * 3 + 1" "3 * j + k \<noteq> i * 3 + 2"
    using assms(1) by presburger+
  then show ?thesis using False by simp
qed

lemma animationLoop_result:
  assumes "PARTICLE_COUNT \<le> length (particles sc)"
  shows "\<exists>sc'. animationLoop pr cts tc time i sc = Some sc'
           \<and> length (particles sc') = length (particles sc)
           \<and> length (colors sc') = length (colors sc)
           \<and> rotationY sc' = rotationY sc
           \<and> (\<forall>j < length (particles sc). particles sc' ! j =
                 (if i \<le> j \<and> j < PARTICLE_COUNT
                  then physicsUpdate (dispersion pr) (targetVecOf pr cts time j) (particles sc ! j)
                  else particles sc ! j))
           \<and> (\<forall>j k. k < 3 \<and> 3 * j + k < length (colors sc) \<longrightarrow> colors sc' ! (3 * j + k) =
                 (if i \<le> j \<and> j < PARTICLE_COUNT
                  then lerpChannel (channel k tc) (colors sc ! (3 * j + k))
                  else colors sc ! (3 * j + k)))"
  using assms
proof (induction "PARTICLE_COUNT - i" arbitrary: i sc)
  case 0
  then have "\<not> i < PARTICLE_COUNT" by simp
  then show ?case
    by (subst animationLoop.simps) auto
next
  case (Suc n)
  then have lt: "i < PARTICLE_COUNT" and n: "n = PARTICLE_COUNT - (i + 1)"
    by simp_all
  have ilen: "i < length (particles sc)"
    using lt Suc.prems by simp
  obtain sc1 where s1: "animateParticle pr cts tc time i sc = Some sc1"
    and p1: "particles sc1 =
               (particles sc)[i := physicsUpdate (dispersion pr) (targetVecOf pr cts time i)
                                    (particles sc ! i)]"
    and c1: "colors sc1 =
               (colors sc)[i * 3 := lerpChannel (col_r tc) (colors sc ! (i * 3)),
                           i * 3 + 1 := lerpChannel (col_g tc) (colors sc ! (i * 3 + 1)),
                           i * 3 + 2 := lerpChannel (col_b tc) (colors sc ! (i * 3 + 2))]"
    and r1: "rotationY sc1 = rotationY sc"
    using animateParticle_Some[OF ilen] by blast
  have len1: "PARTICLE_COUNT \<le> length (particles sc1)"
    using Suc.prems p1 by simp
  obtain sc' where loop: "animationLoop pr cts tc time (i + 1) sc1 = Some sc'"
    and lp: "length (particles sc') = length (particles sc1)"
    and lc: "length (colors sc') = length (colors sc1)"
    and rot: "rotationY sc' = rotationY sc1"
    and ps: "\<forall>j < length (particles sc1). particles sc' ! j =
                 (if i + 1 \<le> j \<and> j < PARTICLE_COUNT
                  then physicsUpdate (dispersion pr) (targetVecOf pr cts time j) (particles sc1 ! j)
                  else particles sc1 ! j)"
    and cs: "\<forall>j k. k < 3 \<and> 3 * j + k < length (colors sc1) \<longrightarrow> colors sc' ! (3 * j + k) =
                 (if i + 1 \<le> j \<and> j < PARTICLE_COUNT
                  then lerpChannel (channel k tc) (colors sc1 ! (3 * j + k))
                  else colors sc1 ! (3 * j + k))"
    using Suc.hyps(1)[OF n len1] by blast
  have run: "animationLoop pr cts tc time i sc = Some sc'"
    using loop by (subst animationLoop.simps) (simp add: lt s1)
  have P: "particles sc' ! j =
                 (if i \<le> j \<and> j < PARTICLE_COUNT
                  then physicsUpdate (dispersion pr) (targetVecOf pr cts time j) (particles sc ! j)
                  else particles sc ! j)" if "j < length (particles sc)" for j
  proof -
    have "j < length (particles sc1)" using that p1 by simp
    then show ?thesis
      using ps[rule_format, of j] that lt by (cases "j = i") (auto simp: p1)
  qed
  have C: "colors sc' ! (3 * j + k) =
                 (if i \<le> j \<and> j < PARTICLE_COUNT
                  then lerpChannel (channel k tc) (colors sc ! (3 * j + k))
                  else colors sc ! (3 * j + k))" if "k < 3" "3 * j + k < length (colors sc)" for j k
  proof -
    have "3 * j + k < length (colors sc1)" using that c1 by simp
    then have "colors sc' ! (3 * j + k) =
                 (if i + 1 \<le> j \<and> j < PARTICLE_COUNT
                  then lerpChannel (channel k tc) (colors sc1 ! (3 * j + k))
                  else colors sc1 ! (3 * j + k))"
      using cs that(1) by blast
    moreover have "colors sc1 ! (3 * j + k) =
        (if j = i then lerpChannel (channel k tc) (colors sc ! (3 * j + k))
         else colors sc ! (3 * j + k))"
      unfolding c1 by (rule colors_step_nth[OF that])
    ultimately show ?thesis
      using lt by (cases "j = i") auto
  qed
  show ?case
    using run lp lc rot p1 c1 r1 P C by simp
qed

lemma useFrame_result:
  assumes "PARTICLE_COUNT \<le> length (particles sc)"
  shows "\<exists>sc'. useFrame True pr targets time sc = Some sc'
           \<and> length (particles sc') = length (particles sc)
           \<and> length (colors sc') = length (colors sc)
           \<and> rotationY sc' = time * 0.05
           \<and> (\<forall>j < PARTICLE_COUNT. particles sc' ! j =
                 physicsUpdate (dispersion pr)
                   (targetVecOf pr (currentTargetsOf targets (mode pr)) time j) (particles sc ! j))
           \<and> (\<forall>j k. j < PARTICLE_COUNT \<and> k < 3 \<and> 3 * j + k < length (colors sc) \<longrightarrow>
                 colors sc' ! (3 * j + k) =
                   lerpChannel (channel k (selectColor pr)) (colors sc ! (3 * j + k)))"
proof -
  obtain sc' where loop: "animationLoop pr (currentTargetsOf targets (mode pr)) (selectColor pr)
        time 0 sc = Some sc'"
    and lp: "length (particles sc') = length (particles sc)"
    and lc: "length (colors sc') = length (colors sc)"
    and ps: "\<forall>j < length (particles sc). particles sc' ! j =
                 (if 0 \<le> j \<and> j < PARTICLE_COUNT
                  then physicsUpdate (dispersion pr)
                    (targetVecOf pr (currentTargetsOf targets (mode pr)) time j) (particles sc ! j)
                  else particles sc ! j)"
    and cs: "\<forall>j k. k < 3 \<and> 3 * j + k < length (colors sc) \<longrightarrow> colors sc' ! (3 * j + k) =
                 (if 0 \<le> j \<and> j < PARTICLE_COUNT
                  then lerpChannel (channel k (selectColor pr)) (colors sc ! (3 * j + k))
                  else colors sc ! (3 * j + k))"
    using animationLoop_result[OF assms, of pr "currentTargetsOf targets (mode pr)"
        "selectColor pr" time 0] by blast
  have "useFrame True pr targets time sc = Some (sc'\<lparr>rotationY := time * 0.05\<rparr>)"
    by (simp add: useFrame_def Let_def loop)
  moreover have "\<forall>j < PARTICLE_COUNT. particles sc' ! j =
                 physicsUpdate (dispersion pr)
                   (targetVecOf pr (currentTargetsOf targets (mode pr)) time j) (particles sc ! j)"
    using ps assms by auto
  moreover have "\<forall>j k. j < PARTICLE_COUNT \<and> k < 3 \<and> 3 * j + k < length (colors sc) \<longrightarrow>
                 colors sc' ! (3 * j + k) =
                   lerpChannel (channel k (selectColor pr)) (colors sc ! (3 * j + k))"
    using cs by auto
  ultimately show ?thesis
    using lp lc by simp
qed

subsection \<open>The scene at the start\<close>

lemma initParticles_eq:
  "initParticles random i temp =
     temp @ map (\<lambda>j. \<lparr>position = Vector3 ((random (3 * j) - 0.5) * 50)
                                           ((random (3 * j + 1) - 0.5) * 50)
                                           ((random (3 * j + 2) - 0.5) * 20),
                       velocity = Vector3 0 0 0,
                       targetIndex = j\<rparr>) [i..<PARTICLE_COUNT]"
  (is "_ = temp @ map ?mk _")
proof (induction "PARTICLE_COUNT - i" arbitrary: i temp)
  case 0
  then show ?case
    by (subst initParticles.simps) simp
next
  case (Suc k)
  then have lt: "i < PARTICLE_COUNT" and k: "k = PARTICLE_COUNT - (i + 1)"
    by simp_all
  have "initParticles random i temp = initParticles random (i + 1) (temp @ [?mk i])"
    by (subst initParticles.simps) (simp add: lt)
  also have "\<dots> = (temp @ [?mk i]) @ map ?mk [i + 1..<PARTICLE_COUNT]"
    by (rule Suc.hyps(1)[OF k])
  also have "\<dots> = temp @ map ?mk [i..<PARTICLE_COUNT]"
    by (simp add: upt_conv_Cons[OF lt])
  finally show ?case .
qed

lemma initialScene_particles:
  "length (particles (initialScene random)) = PARTICLE_COUNT"
  "i < PARTICLE_COUNT \<Longrightarrow> velocity (particles (initialScene random) ! i) = Vector3 0 0 0"
  "i < PARTICLE_COUNT \<Longrightarrow> targetIndex (particles (initialScene random) ! i) = i"
  by (simp_all add: initialScene_def initParticles_eq)

lemma useFrame_from_initialScene:
  "\<exists>sc'. useFrame mounted pr targets time (initialScene random) = Some sc'
         \<and> length (particles sc') = PARTICLE_COUNT"
proof (cases mounted)
  case True
  have "PARTICLE_COUNT \<le> length (particles (initialScene random))"
    by (simp add: initialScene_particles)
  from useFrame_result[OF this, of pr targets time] show ?thesis
    using True by (auto simp: initialScene_particles)
next
  case False
  then show ?thesis
    by (simp add: useFrame_def initialScene_particles)
qed

subsection \<open>Vector algebra\<close>

lemma Vector3_eq_iff:
  "a = b \<longleftrightarrow> vec_x a = vec_x b \<and> vec_y a = vec_y b \<and> vec_z a = vec_z b"
  by (cases a; cases b) auto

lemma length_v_nonneg: "0 \<le> length_v a"
  by (simp add: length_v_def)

lemma length_v_zero_iff: "length_v a = 0 \<longleftrightarrow> a = Vector3 0 0 0"
proof -
  have "vec_x a * vec_x a + vec_y a * vec_y a + vec_z a * vec_z a = 0
        \<longleftrightarrow> vec_x a = 0 \<and> vec_y a = 0 \<and> vec_z a = 0"
    using sum_squares_eq_zero_iff[of "vec_x a" "vec_y a"]
      add_nonneg_eq_0_iff[of "vec_x a * vec_x a + vec_y a * vec_y a" "vec_z a * vec_z a"]
    by auto
  then show ?thesis
    by (simp add: length_v_def Vector3_eq_iff)
qed

lemma length_v_multiplyScalar: "length_v (multiplyScalar a s) = \<bar>s\<bar> * length_v a"
proof -
  have "vec_x a * s * (vec_x a * s) + vec_y a * s * (vec_y a * s) + vec_z a * s * (vec_z a * s)
        = (s * s) * (vec_x a * vec_x a + vec_y a * vec_y a + vec_z a * vec_z a)"
    by (simp add: algebra_simps)
  then show ?thesis
    by (simp add: length_v_def multiplyScalar_def real_sqrt_mult)
qed

lemma physics_force:
  "multiplyScalar (normalize_v (sub_v targetVec (position p)))
     (min (length_v (sub_v targetVec (position p)) * 0.1) (0.5 + disp * 1.5))
   = steeringForce disp targetVec p"
proof (cases "distanceTo targetVec p = 0")
  case True
  then have "sub_v targetVec (position p) = Vector3 0 0 0"
    by (simp add: distanceTo_def length_v_zero_iff)
  then show ?thesis
    using True
    by (simp add: steeringForce_def normalize_v_def divideScalar_def multiplyScalar_def
        length_v_def)
next
  case False
  then show ?thesis
    by (simp add: steeringForce_def distanceTo_def normalize_v_def divideScalar_def
        multiplyScalar_def maxSpeedOf_def algebra_simps)
qed

lemma physicsUpdate_eq:
  "physicsUpdate disp targetVec p =
     p\<lparr>velocity := multiplyScalar (add_v (velocity p) (steeringForce disp targetVec p)) 0.92,
       position := add_v (position p)
          (multiplyScalar (add_v (velocity p) (steeringForce disp targetVec p)) 0.92)\<rparr>"
  unfolding physicsUpdate_def Let_def physics_force ..

lemma length_steeringForce:
  assumes "0 \<le> maxSpeedOf disp"
  shows "length_v (steeringForce disp targetVec p)
           = min (distanceTo targetVec p * 0.1) (maxSpeedOf disp)"
proof (cases "distanceTo targetVec p = 0")
  case True
  then show ?thesis
    using assms by (simp add: steeringForce_def length_v_def)
next
  case False
  have pos: "0 < distanceTo targetVec p"
    using False length_v_nonneg[of "sub_v targetVec (position p)"]
    by (simp add: distanceTo_def)
  then have m: "0 \<le> min (distanceTo targetVec p * 0.1) (maxSpeedOf disp)"
    using assms by simp
  have "length_v (steeringForce disp targetVec p)
        = \<bar>min (distanceTo targetVec p * 0.1) (maxSpeedOf disp) / distanceTo targetVec p\<bar>
            * distanceTo targetVec p"
    using False by (simp add: steeringForce_def length_v_multiplyScalar distanceTo_def)
  also have "\<dots> = min (distanceTo targetVec p * 0.1) (maxSpeedOf disp)"
    using pos divide_nonneg_pos[OF m pos] by (simp only: abs_of_nonneg) simp
  finally show ?thesis .
qed

lemma steeringForce_direction:
  "\<exists>k. steeringForce disp targetVec p = multiplyScalar (sub_v targetVec (position p)) k
       \<and> (0 \<le> maxSpeedOf disp \<longrightarrow> 0 \<le> k)"
proof (cases "distanceTo targetVec p = 0")
  case True
  then have "sub_v targetVec (position p) = Vector3 0 0 0"
    by (simp add: distanceTo_def length_v_zero_iff)
  then have "steeringForce disp targetVec p = multiplyScalar (sub_v targetVec (position p)) 0"
    using True by (simp add: steeringForce_def multiplyScalar_def)
  then show ?thesis by blast
next
  case False
  have pos: "0 < distanceTo targetVec p"
    using False length_v_nonneg[of "sub_v targetVec (position p)"]
    by (simp add: distanceTo_def)
  have "steeringForce disp targetVec p = multiplyScalar (sub_v targetVec (position p))
          (min (distanceTo targetVec p * 0.1) (maxSpeedOf disp) / distanceTo targetVec p)"
    using False by (simp add: steeringForce_def)
  moreover have "0 \<le> maxSpeedOf disp \<longrightarrow>
      0 \<le> min (distanceTo targetVec p * 0.1) (maxSpeedOf disp) / distanceTo targetVec p"
    using pos by simp
  ultimately show ?thesis by blast
qed

subsection \<open>The physics update\<close>

text \<open>
  Claim C4. The physics update of a particle takes \<open>force = target - position\<close>,
  \<open>dist = |force|\<close> and \<open>maxSpeed = 0.5 + 1.5 * dispersion\<close>, rescales the force to the
  direction of \<open>target - position\<close> with magnitude \<open>min (dist * 0.1) maxSpeed\<close>
  (\<open>steeringForce\<close>; the magnitude is stated for a non-negative \<open>maxSpeed\<close>), then sets the
  velocity to \<open>(velocity + force) * 0.92\<close> and the position to the old position plus the new
  velocity. A frame, run with the mesh mounted on a scene that holds its
  \<open>PARTICLE_COUNT\<close> particles, returns normally and has done this to every one of them,
  each with its own target.
\<close>

theorem C4_physics_update:
  "velocity (physicsUpdate disp targetVec p)
     = multiplyScalar (add_v (velocity p) (steeringForce disp targetVec p)) 0.92
   \<and> position (physicsUpdate disp targetVec p)
     = add_v (position p) (velocity (physicsUpdate disp targetVec p))
   \<and> targetIndex (physicsUpdate disp targetVec p) = targetIndex p
   \<and> (0 \<le> maxSpeedOf disp \<longrightarrow>
        length_v (steeringForce disp targetVec p)
          = min (distanceTo targetVec p * 0.1) (maxSpeedOf disp))
   \<and> (\<exists>k. steeringForce disp targetVec p = multiplyScalar (sub_v targetVec (position p)) k
          \<and> (0 \<le> maxSpeedOf disp \<longrightarrow> 0 \<le> k))
   \<and> (PARTICLE_COUNT \<le> length (particles sc) \<longrightarrow>
        (case useFrame True pr targets time sc of
           None \<Rightarrow> False
         | Some sc' \<Rightarrow>
             length (particles sc') = length (particles sc)
             \<and> (\<forall>i < PARTICLE_COUNT.
                   particles sc' ! i =
                     physicsUpdate (dispersion pr)
                       (targetVecOf pr (currentTargetsOf targets (mode pr)) time i)
                       (particles sc ! i))))"
proof -
  have frame: "PARTICLE_COUNT \<le> length (particles sc) \<longrightarrow>
        (case useFrame True pr targets time sc of
           None \<Rightarrow> False
         | Some sc' \<Rightarrow>
             length (particles sc') = length (particles sc)
             \<and> (\<forall>i < PARTICLE_COUNT.
                   particles sc' ! i =
                     physicsUpdate (dispersion pr)
                       (targetVecOf pr (currentTargetsOf targets (mode pr)) time i)
                       (particles sc ! i)))"
  proof
    assume "PARTICLE_COUNT \<le> length (particles sc)"
    from useFrame_result[OF this, of pr targets time]
    show "case useFrame True pr targets time sc of
           None \<Rightarrow> False
         | Some sc' \<Rightarrow>
             length (particles sc') = length (particles sc)
             \<and> (\<forall>i < PARTICLE_COUNT.
                   particles sc' ! i =
                     physicsUpdate (dispersion pr)
                       (targetVecOf pr (currentTargetsOf targets (mode pr)) time i)
                       (particles sc ! i))"
      by auto
  qed
  show ?thesis
    using frame steeringForce_direction[of disp targetVec p] length_steeringForce[of disp targetVec p]
    by (simp add: physicsUpdate_eq)
qed


lemma vec_simps:
  "vec_x (sub_v a b) = vec_x a - vec_x b" "vec_y (sub_v a b) = vec_y a - vec_y b"
  "vec_z (sub_v a b) = vec_z a - vec_z b"
  "vec_x (add_v a b) = vec_x a + vec_x b" "vec_y (add_v a b) = vec_y a + vec_y b"
  "vec_z (add_v a b) = vec_z a + vec_z b"
  "vec_x (multiplyScalar a s) = vec_x a * s" "vec_y (multiplyScalar a s) = vec_y a * s"
  "vec_z (multiplyScalar a s) = vec_z a * s"
  by (simp_all add: sub_v_def add_v_def multiplyScalar_def)

lemma physicsUpdate_rest: "physicsUpdate 0 unitTarget restParticle =
    \<lparr>position = Vector3 0.092 0 0, velocity = Vector3 0.092 0 0, targetIndex = 0\<rparr>"
proof -
  have d: "distanceTo unitTarget restParticle = 1"
    by (simp add: distanceTo_def unitTarget_def restParticle_def length_v_def sub_v_def)
  show ?thesis
    by (simp add: physicsUpdate_eq steeringForce_def d maxSpeedOf_def)
      (simp add: unitTarget_def restParticle_def sub_v_def add_v_def multiplyScalar_def)
qed

lemma length_sampleScene: "PARTICLE_COUNT \<le> length (particles sampleScene)"
  by (simp add: sampleScene_def)

theorem C4_physics_witness:
  "0 \<le> maxSpeedOf 0
   \<and> PARTICLE_COUNT \<le> length (particles sampleScene)
   \<and> length_v (steeringForce 0 unitTarget restParticle) = 0.1
   \<and> physicsUpdate 0 unitTarget restParticle =
        \<lparr>position = Vector3 0.092 0 0, velocity = Vector3 0.092 0 0, targetIndex = 0\<rparr>
   \<and> (case useFrame True handProps sampleTargets 0 sampleScene of
         None \<Rightarrow> False
       | Some sc' \<Rightarrow>
           particles sc' ! 0 =
             \<lparr>position = Vector3 0.092 0 0, velocity = Vector3 0.092 0 0, targetIndex = 0\<rparr>)"
proof -
  have ms: "0 \<le> maxSpeedOf 0"
    by (simp add: maxSpeedOf_def)
  have d: "distanceTo unitTarget restParticle = 1"
    by (simp add: distanceTo_def unitTarget_def restParticle_def length_v_def sub_v_def)
  have t: "targetVecOf handProps (currentTargetsOf sampleTargets (mode handProps)) 0 0
             = unitTarget"
    by (simp add: targetVecOf_def handProps_def currentTargetsOf_def sampleTargets_def)
  have p0: "particles sampleScene ! 0 = restParticle"
    by (simp add: sampleScene_def PARTICLE_COUNT_def)
  have pc: "0 < PARTICLE_COUNT"
    by (simp add: PARTICLE_COUNT_def)
  have dz: "dispersion handProps = 0"
    by (simp add: handProps_def)
  show ?thesis
    using C4_physics_update[of 0 unitTarget restParticle sampleScene handProps sampleTargets 0]
      ms length_sampleScene pc
    by (auto simp: d maxSpeedOf_def physicsUpdate_rest t p0 dz split: option.splits)
qed

subsection \<open>Steady state\<close>

lemma physicsUpdate_fixed_iff:
  assumes "0 < maxSpeedOf disp"
  shows "physicsUpdate disp targetVec p = p
           \<longleftrightarrow> position p = targetVec \<and> velocity p = Vector3 0 0 0"
proof
  assume fp: "physicsUpdate disp targetVec p = p"
  let ?V = "multiplyScalar (add_v (velocity p) (steeringForce disp targetVec p)) 0.92"
  have v: "velocity p = ?V" and x: "position p = add_v (position p) ?V"
    using arg_cong[OF fp, of velocity] arg_cong[OF fp, of position]
    by (simp_all add: physicsUpdate_eq)
  have V0: "?V = Vector3 0 0 0"
    using x by (simp add: Vector3_eq_iff vec_simps)
  then have vel: "velocity p = Vector3 0 0 0"
    using v by simp
  have F0: "steeringForce disp targetVec p = Vector3 0 0 0"
    using V0 vel by (simp add: Vector3_eq_iff vec_simps)
  have "min (distanceTo targetVec p * 0.1) (maxSpeedOf disp) = 0"
    using length_steeringForce[of disp targetVec p] assms F0
    by (simp add: length_v_def)
  then have "distanceTo targetVec p = 0"
    using assms by (simp add: min_def split: if_splits)
  then have "position p = targetVec"
    by (simp add: distanceTo_def length_v_zero_iff Vector3_eq_iff vec_simps)
  then show "position p = targetVec \<and> velocity p = Vector3 0 0 0"
    using vel by simp
next
  assume a: "position p = targetVec \<and> velocity p = Vector3 0 0 0"
  then have "distanceTo targetVec p = 0"
    by (simp add: distanceTo_def length_v_def sub_v_def)
  then have "steeringForce disp targetVec p = Vector3 0 0 0"
    by (simp add: steeringForce_def)
  then show "physicsUpdate disp targetVec p = p"
    using a by (simp add: physicsUpdate_eq add_v_def multiplyScalar_def)
qed

text \<open>
  Claim C8. With dispersion 0, an active hand and a non-empty set of target points, the
  target of particle \<open>i\<close> is the text point number \<open>i mod length\<close> with no noise added,
  and the physics update leaves a particle unchanged exactly when its position is that
  point and its velocity is zero: the steady state exists and is unique.
\<close>

theorem C8_steady_state_is_target:
  assumes "hasHand pr" and "dispersion pr = 0" and "currentTargets \<noteq> []"
  shows "targetVecOf pr currentTargets time i = currentTargets ! (i mod length currentTargets)
         \<and> (physicsUpdate (dispersion pr) (targetVecOf pr currentTargets time i) p = p
              \<longleftrightarrow> position p = currentTargets ! (i mod length currentTargets)
                   \<and> velocity p = Vector3 0 0 0)"
proof -
  have t: "targetVecOf pr currentTargets time i = currentTargets ! (i mod length currentTargets)"
    using assms by (simp add: targetVecOf_def Let_def)
  have ms: "0 < maxSpeedOf (dispersion pr)"
    using assms(2) by (simp add: maxSpeedOf_def)
  show ?thesis
    unfolding t using physicsUpdate_fixed_iff[OF ms] by simp
qed

theorem C8_steady_state_witness:
  "hasHand handProps \<and> dispersion handProps = 0
   \<and> targetVecOf handProps [unitTarget, Vector3 0 2 0] 7 3 = Vector3 0 2 0
   \<and> physicsUpdate 0 (Vector3 0 2 0)
        \<lparr>position = Vector3 0 2 0, velocity = Vector3 0 0 0, targetIndex = 3\<rparr>
       = \<lparr>position = Vector3 0 2 0, velocity = Vector3 0 0 0, targetIndex = 3\<rparr>
   \<and> physicsUpdate 0 unitTarget restParticle \<noteq> restParticle"
proof -
  have a: "hasHand handProps" "dispersion handProps = 0" "[unitTarget, Vector3 0 2 0] \<noteq> []"
    by (simp_all add: handProps_def)
  have n: "[unitTarget, Vector3 0 2 0] ! (3 mod length [unitTarget, Vector3 0 2 0]) = Vector3 0 2 0"
    "[unitTarget, Vector3 0 2 0] ! (0 mod length [unitTarget, Vector3 0 2 0]) = unitTarget"
    by (simp_all add: numeral_2_eq_2[symmetric])
  note th1 = C8_steady_state_is_target[OF a, of 7 3
        "\<lparr>position = Vector3 0 2 0, velocity = Vector3 0 0 0, targetIndex = 3\<rparr>",
        unfolded n a(2)]
  note th2 = C8_steady_state_is_target[OF a, of 0 0 restParticle, unfolded n a(2)]
  have r: "position restParticle \<noteq> unitTarget"
    by (simp add: restParticle_def unitTarget_def)
  have f1: "physicsUpdate 0 (Vector3 0 2 0)
        \<lparr>position = Vector3 0 2 0, velocity = Vector3 0 0 0, targetIndex = 3\<rparr>
       = \<lparr>position = Vector3 0 2 0, velocity = Vector3 0 0 0, targetIndex = 3\<rparr>"
    using th1[THEN conjunct2] unfolding th1[THEN conjunct1] by simp
  have f2: "physicsUpdate 0 unitTarget restParticle \<noteq> restParticle"
    using th2[THEN conjunct2] r unfolding th2[THEN conjunct1] by simp
  show ?thesis
    using th1[THEN conjunct1] f1 f2 a(1,2) by simp
qed

subsection \<open>Colour blending\<close>

lemma lerpChannel_alt: "lerpChannel t c = c + (t - c) / 20"
  by (simp add: lerpChannel_def)

lemma lerpChannel_funpow: "(lerpChannel t ^^ n) c = t + (c - t) * 0.95 ^ n"
proof (induction n)
  case 0
  show ?case by simp
next
  case (Suc n)
  have "(lerpChannel t ^^ Suc n) c = lerpChannel t ((lerpChannel t ^^ n) c)"
    by simp
  also have "\<dots> = lerpChannel t (t + (c - t) * 0.95 ^ n)"
    by (simp only: Suc)
  also have "\<dots> = t + (19 / 20) * ((c - t) * 0.95 ^ n)"
    unfolding lerpChannel_alt by (simp add: field_simps)
  also have "\<dots> = t + (c - t) * 0.95 ^ Suc n"
    by simp
  finally show ?case .
qed

lemma lerpChannel_range:
  assumes "0 \<le> c" "c \<le> 1" "0 \<le> t" "t \<le> 1"
  shows "0 \<le> lerpChannel t c \<and> lerpChannel t c \<le> 1"
  unfolding lerpChannel_alt using assms by (simp add: field_simps)

lemma lerpChannel_limit: "(\<lambda>n. (lerpChannel t ^^ n) c) \<longlonglongrightarrow> t"
proof -
  have p: "(\<lambda>n. (0.95::real) ^ n) \<longlonglongrightarrow> 0"
    by (rule LIMSEQ_realpow_zero) simp_all
  have "(\<lambda>n. t + (c - t) * 0.95 ^ n) \<longlonglongrightarrow> t + (c - t) * 0"
    by (intro tendsto_add tendsto_const tendsto_mult p)
  then show ?thesis
    by (simp only: lerpChannel_funpow mult_zero_right add_0_right)
qed

lemma lerpChannel_gap: "t - (lerpChannel t ^^ n) c = - ((c - t) * 0.95 ^ n)"
  unfolding lerpChannel_funpow by simp

lemma channel_selectColor_range:
  "0 \<le> channel k (selectColor pr) \<and> channel k (selectColor pr) \<le> 1"
  by (simp add: channel_def selectColor_def Let_def color1_def color2_def color3_def
      colorIdle_def)

text \<open>
  Claim C9. A colour channel is updated by \<open>c + (target - c) * 0.05\<close>. With the channel
  and its target in [0, 1] the new value is in [0, 1]. Under a fixed target the distance
  to the target never grows from one tick to the next, the channel moves monotonically
  toward the target from the side it started on, and it converges to the target. The
  target channels that the simulator selects are in [0, 1], and a frame, run with the
  mesh mounted, updates every channel of every particle by this rule.
\<close>

theorem C9_color_channels_converge:
  "(0 \<le> c \<and> c \<le> 1 \<and> 0 \<le> t \<and> t \<le> 1 \<longrightarrow> 0 \<le> lerpChannel t c \<and> lerpChannel t c \<le> 1)
   \<and> \<bar>t - (lerpChannel t ^^ Suc n) c\<bar> \<le> \<bar>t - (lerpChannel t ^^ n) c\<bar>
   \<and> (c \<le> t \<longrightarrow> (lerpChannel t ^^ n) c \<le> (lerpChannel t ^^ Suc n) c
                 \<and> (lerpChannel t ^^ Suc n) c \<le> t)
   \<and> (t \<le> c \<longrightarrow> t \<le> (lerpChannel t ^^ Suc n) c
                 \<and> (lerpChannel t ^^ Suc n) c \<le> (lerpChannel t ^^ n) c)
   \<and> (\<lambda>m. (lerpChannel t ^^ m) c) \<longlonglongrightarrow> t
   \<and> 0 \<le> channel k (selectColor pr) \<and> channel k (selectColor pr) \<le> 1
   \<and> (PARTICLE_COUNT \<le> length (particles sc) \<longrightarrow>
        (case useFrame True pr targets time sc of
           None \<Rightarrow> False
         | Some sc' \<Rightarrow>
             length (colors sc') = length (colors sc)
             \<and> (\<forall>i j. i < PARTICLE_COUNT \<and> j < 3 \<and> 3 * i + j < length (colors sc) \<longrightarrow>
                   colors sc' ! (3 * i + j) =
                     lerpChannel (channel j (selectColor pr)) (colors sc ! (3 * i + j)))))"
proof -
  have pw: "(0.95::real) ^ Suc n \<le> 0.95 ^ n" "0 \<le> (0.95::real) ^ n" "0 \<le> (0.95::real) ^ Suc n"
    by simp_all
  have mono: "\<bar>t - (lerpChannel t ^^ Suc n) c\<bar> \<le> \<bar>t - (lerpChannel t ^^ n) c\<bar>"
  proof -
    have "\<bar>(c - t) * 0.95 ^ Suc n\<bar> = \<bar>c - t\<bar> * 0.95 ^ Suc n"
      "\<bar>(c - t) * 0.95 ^ n\<bar> = \<bar>c - t\<bar> * 0.95 ^ n"
      using pw(2,3) by (simp_all only: abs_mult abs_of_nonneg)
    then show ?thesis
      unfolding lerpChannel_gap abs_minus
      using mult_left_mono[OF pw(1), of "\<bar>c - t\<bar>"] by (simp only: abs_ge_zero)
  qed
  have up: "c \<le> t \<longrightarrow> (lerpChannel t ^^ n) c \<le> (lerpChannel t ^^ Suc n) c
                 \<and> (lerpChannel t ^^ Suc n) c \<le> t"
  proof
    assume "c \<le> t"
    then have le: "c - t \<le> 0" by simp
    have "(c - t) * 0.95 ^ n \<le> (c - t) * 0.95 ^ Suc n"
      using mult_left_mono_neg[OF pw(1) le] .
    moreover have "(c - t) * 0.95 ^ Suc n \<le> 0"
      using mult_nonpos_nonneg[OF le pw(3)] .
    ultimately show "(lerpChannel t ^^ n) c \<le> (lerpChannel t ^^ Suc n) c
                 \<and> (lerpChannel t ^^ Suc n) c \<le> t"
      unfolding lerpChannel_funpow by linarith
  qed
  have down: "t \<le> c \<longrightarrow> t \<le> (lerpChannel t ^^ Suc n) c
                 \<and> (lerpChannel t ^^ Suc n) c \<le> (lerpChannel t ^^ n) c"
  proof
    assume "t \<le> c"
    then have ge: "0 \<le> c - t" by simp
    have "(c - t) * 0.95 ^ Suc n \<le> (c - t) * 0.95 ^ n"
      using mult_left_mono[OF pw(1) ge] .
    moreover have "0 \<le> (c - t) * 0.95 ^ Suc n"
      using mult_nonneg_nonneg[OF ge pw(3)] .
    ultimately show "t \<le> (lerpChannel t ^^ Suc n) c
                 \<and> (lerpChannel t ^^ Suc n) c \<le> (lerpChannel t ^^ n) c"
      unfolding lerpChannel_funpow by linarith
  qed
  have frame: "PARTICLE_COUNT \<le> length (particles sc) \<longrightarrow>
        (case useFrame True pr targets time sc of
           None \<Rightarrow> False
         | Some sc' \<Rightarrow>
             length (colors sc') = length (colors sc)
             \<and> (\<forall>i j. i < PARTICLE_COUNT \<and> j < 3 \<and> 3 * i + j < length (colors sc) \<longrightarrow>
                   colors sc' ! (3 * i + j) =
                     lerpChannel (channel j (selectColor pr)) (colors sc ! (3 * i + j))))"
  proof
    assume "PARTICLE_COUNT \<le> length (particles sc)"
    from useFrame_result[OF this, of pr targets time]
    show "case useFrame True pr targets time sc of
           None \<Rightarrow> False
         | Some sc' \<Rightarrow>
             length (colors sc') = length (colors sc)
             \<and> (\<forall>i j. i < PARTICLE_COUNT \<and> j < 3 \<and> 3 * i + j < length (colors sc) \<longrightarrow>
                   colors sc' ! (3 * i + j) =
                     lerpChannel (channel j (selectColor pr)) (colors sc ! (3 * i + j)))"
      by auto
  qed
  show ?thesis
    using lerpChannel_range[of c t] mono up down lerpChannel_limit[of t c]
      channel_selectColor_range[of k pr] frame
    by blast
qed

theorem C9_color_witness:
  "PARTICLE_COUNT \<le> length (particles sampleScene)
   \<and> lerpChannel 1 (1 / 2) = 21 / 40
   \<and> 0 \<le> lerpChannel 1 (1 / 2) \<and> lerpChannel 1 (1 / 2) \<le> 1
   \<and> (1 / 2) \<le> (lerpChannel 1 ^^ Suc 0) (1 / 2) \<and> (lerpChannel 1 ^^ Suc 0) (1 / 2) \<le> 1
   \<and> (case useFrame True handProps sampleTargets 0 sampleScene of
         None \<Rightarrow> False
       | Some sc' \<Rightarrow> colors sc' ! 16 = 21 / 40)"
proof -
  have c: "colors sampleScene ! (3 * 5 + 1) = 1 / 2"
    "length (colors sampleScene) = PARTICLE_COUNT * 3"
    by (simp_all add: sampleScene_def PARTICLE_COUNT_def)
  have pc: "5 < PARTICLE_COUNT" "3 * 5 + 1 < PARTICLE_COUNT * 3"
    by (simp_all add: PARTICLE_COUNT_def)
  have col: "channel 1 (selectColor handProps) = 1"
    by (simp add: channel_def selectColor_def handProps_def color1_def)
  have l: "lerpChannel 1 (1 / 2) = 21 / 40"
    by (simp add: lerpChannel_def)
  note th = C9_color_channels_converge[of "1 / 2" 1 0 1 handProps sampleScene sampleTargets 0]
  have rng: "0 \<le> lerpChannel 1 (1 / 2) \<and> lerpChannel 1 (1 / 2) \<le> 1"
    using th by simp
  have up: "(1 / 2) \<le> (lerpChannel 1 ^^ Suc 0) (1 / 2) \<and> (lerpChannel 1 ^^ Suc 0) (1 / 2) \<le> 1"
    using th by simp
  have fr: "case useFrame True handProps sampleTargets 0 sampleScene of
         None \<Rightarrow> False
       | Some sc' \<Rightarrow>
             length (colors sc') = length (colors sampleScene)
             \<and> (\<forall>i j. i < PARTICLE_COUNT \<and> j < 3 \<and> 3 * i + j < length (colors sampleScene) \<longrightarrow>
                   colors sc' ! (3 * i + j) =
                     lerpChannel (channel j (selectColor handProps))
                       (colors sampleScene ! (3 * i + j)))"
    using th length_sampleScene by blast
  have "case useFrame True handProps sampleTargets 0 sampleScene of
         None \<Rightarrow> False
       | Some sc' \<Rightarrow> colors sc' ! 16 = 21 / 40"
  proof (cases "useFrame True handProps sampleTargets 0 sampleScene")
    case None
    then show ?thesis using fr by simp
  next
    case (Some sc')
    then have "\<forall>i j. i < PARTICLE_COUNT \<and> j < 3 \<and> 3 * i + j < length (colors sampleScene) \<longrightarrow>
                   colors sc' ! (3 * i + j) =
                     lerpChannel (channel j (selectColor handProps))
                       (colors sampleScene ! (3 * i + j))"
      using fr by simp
    from this[rule_format, of 5 1] pc
    have "colors sc' ! (3 * 5 + 1) =
        lerpChannel (channel 1 (selectColor handProps)) (colors sampleScene ! (3 * 5 + 1))"
      by (simp add: c(2))
    then have "colors sc' ! (3 * 5 + 1) = 21 / 40"
      by (simp only: c(1) col l)
    then show ?thesis using Some by simp
  qed
  then show ?thesis
    using length_sampleScene l rng up by simp
qed

subsection \<open>Motion toward a fixed target\<close>

lemma lineStep_snd: "snd (lineStep ms len ab) = (snd ab + lineForce ms len (fst ab)) * 0.92"
  by (simp add: lineStep_def Let_def)

lemma lineStep_fst: "fst (lineStep ms len ab) = fst ab - snd (lineStep ms len ab)"
  by (simp add: lineStep_def Let_def)

lemma lineForce_nonneg:
  assumes "0 \<le> a" "0 < ms" "0 < len"
  shows "0 \<le> lineForce ms len a"
  using assms by (simp add: lineForce_def sgn_if)

lemma lineForce_pos:
  assumes "0 < a" "0 < ms" "0 < len"
  shows "0 < lineForce ms len a"
  using assms by (simp add: lineForce_def sgn_if)

lemma lineForce_bound:
  assumes "0 < ms" "0 < len"
  shows "\<bar>lineForce ms len a\<bar> * len \<le> ms"
proof -
  have m: "0 \<le> min (\<bar>a\<bar> * len * 0.1) ms"
    using assms by simp
  have "\<bar>lineForce ms len a\<bar> * len = \<bar>sgn a\<bar> * min (\<bar>a\<bar> * len * 0.1) ms"
    using assms m by (simp add: lineForce_def abs_mult abs_of_nonneg[OF m])
  also have "\<dots> \<le> 1 * min (\<bar>a\<bar> * len * 0.1) ms"
    by (rule mult_right_mono[OF _ m]) (simp add: sgn_if)
  also have "\<dots> \<le> ms"
    by simp
  finally show ?thesis .
qed

lemma lineRun_speed:
  assumes "0 < ms" "0 < len"
  shows "\<bar>snd (lineRun n ms len)\<bar> * len < 11.5 * ms"
proof (induction n)
  case 0
  then show ?case using assms by simp
next
  case (Suc n)
  let ?b = "snd (lineRun n ms len)" and ?g = "lineForce ms len (fst (lineRun n ms len))"
  have e: "snd (lineRun (Suc n) ms len) = (?b + ?g) * (23 / 25)"
    by (simp add: lineStep_snd)
  have "\<bar>(?b + ?g) * (23 / 25)\<bar> = \<bar>?b + ?g\<bar> * (23 / 25)"
    unfolding abs_mult by simp
  then have "\<bar>snd (lineRun (Suc n) ms len)\<bar> * len = (\<bar>?b + ?g\<bar> * len) * (23 / 25)"
    unfolding e by (simp only: mult.assoc mult.commute mult.left_commute)
  also have "\<dots> \<le> ((\<bar>?b\<bar> + \<bar>?g\<bar>) * len) * (23 / 25)"
    using assms(2) by (simp add: mult_right_mono)
  also have "\<dots> = (\<bar>?b\<bar> * len + \<bar>?g\<bar> * len) * (23 / 25)"
    by (simp add: algebra_simps)
  also have "\<dots> < (11.5 * ms + ms) * (23 / 25)"
    using Suc.IH lineForce_bound[OF assms, of "fst (lineRun n ms len)"] by simp
  also have "\<dots> = 11.5 * ms"
    by simp
  finally show ?case .
qed

lemma lineRun_velocity_pos:
  assumes "0 < ms" "0 < len" "\<forall>k \<le> n. 0 \<le> fst (lineRun k ms len)"
  shows "0 < snd (lineRun (Suc n) ms len)"
  using assms(3)
proof (induction n)
  case 0
  have "0 < lineForce ms len 1"
    by (rule lineForce_pos[OF _ assms(1,2)]) simp
  then show ?case
    by (simp add: lineStep_snd)
next
  case (Suc n)
  then have b: "0 < snd (lineRun (Suc n) ms len)"
    by simp
  have "0 \<le> fst (lineRun (Suc n) ms len)"
    using Suc.prems by blast
  then have "0 \<le> lineForce ms len (fst (lineRun (Suc n) ms len))"
    by (rule lineForce_nonneg[OF _ assms(1,2)])
  then have "0 < (snd (lineRun (Suc n) ms len)
      + lineForce ms len (fst (lineRun (Suc n) ms len))) * 0.92"
    using b by simp
  then show ?case
    by (simp only: lineRun.simps lineStep_snd)
qed

lemma lineRun_approach:
  assumes "0 < ms" "0 < len" "\<forall>k \<le> Suc n. 0 \<le> fst (lineRun k ms len)"
  shows "\<bar>fst (lineRun (Suc n) ms len)\<bar> < \<bar>fst (lineRun n ms len)\<bar>"
proof -
  have "0 < snd (lineRun (Suc n) ms len)"
    using assms by (intro lineRun_velocity_pos) auto
  then have "fst (lineRun (Suc n) ms len) < fst (lineRun n ms len)"
    using lineStep_fst[of ms len "lineRun n ms len"] by simp
  moreover have "0 \<le> fst (lineRun (Suc n) ms len)" "0 \<le> fst (lineRun n ms len)"
    using assms(3) by (blast, simp)
  ultimately show ?thesis by linarith
qed

lemma lineRun_passing:
  assumes "0 < ms" "0 < len" "0 \<le> fst (lineRun n ms len)" "fst (lineRun (Suc n) ms len) < 0"
  shows "\<bar>fst (lineRun (Suc n) ms len)\<bar> * len < 11.5 * ms"
proof -
  have "\<bar>fst (lineRun (Suc n) ms len)\<bar> \<le> \<bar>snd (lineRun (Suc n) ms len)\<bar>"
    using lineStep_fst[of ms len "lineRun n ms len"] assms(3,4) by simp
  then have "\<bar>fst (lineRun (Suc n) ms len)\<bar> * len \<le> \<bar>snd (lineRun (Suc n) ms len)\<bar> * len"
    using assms(2) by (simp add: mult_right_mono)
  then show ?thesis
    using lineRun_speed[OF assms(1,2), of "Suc n"] by linarith
qed

lemma lineForce_nonpos:
  assumes "a \<le> 0" "0 < ms" "0 < len"
  shows "lineForce ms len a \<le> 0"
proof -
  have "0 \<le> min (\<bar>a\<bar> * len * 0.1) ms"
    using assms(2,3) by simp
  then have m: "0 \<le> min (\<bar>a\<bar> * len * 0.1) ms / len"
    using assms(3) by simp
  have "sgn a \<le> 0"
    using assms(1) by (simp add: sgn_if)
  then have "sgn a * (min (\<bar>a\<bar> * len * 0.1) ms / len) \<le> 0"
    using m by (rule mult_nonpos_nonneg)
  then show ?thesis
    by (simp add: lineForce_def)
qed

lemma lineRun_drift:
  "fst (lineRun (Suc n) ms len) - 23 / 2 * snd (lineRun (Suc n) ms len)
     = fst (lineRun n ms len) - 23 / 2 * snd (lineRun n ms len)
       - 23 / 2 * lineForce ms len (fst (lineRun n ms len))"
proof -
  have e: "(a - (b + g) * 0.92) - 23 / 2 * ((b + g) * 0.92) = a - 23 / 2 * b - 23 / 2 * g"
    for a b g :: real
    by (simp add: field_simps)
  show ?thesis
    unfolding lineRun.simps lineStep_fst lineStep_snd by (rule e)
qed

lemma lineRun_drift_lower:
  assumes "0 < ms" "0 < len"
  shows "- (575 / 4) * ms
           < fst (lineRun n ms len) * len - 23 / 2 * (snd (lineRun n ms len) * len)"
proof (induction n)
  case 0
  have "0 < len + 575 / 4 * ms"
    using assms by (simp add: add_pos_pos)
  then show ?case by simp
next
  case (Suc n)
  let ?a = "fst (lineRun n ms len)" and ?b = "snd (lineRun n ms len)"
  let ?g = "lineForce ms len ?a"
  have step: "fst (lineRun (Suc n) ms len) * len - 23 / 2 * (snd (lineRun (Suc n) ms len) * len)
        = (?a * len - 23 / 2 * (?b * len)) - 23 / 2 * (?g * len)"
  proof -
    have "fst (lineRun (Suc n) ms len) * len - 23 / 2 * (snd (lineRun (Suc n) ms len) * len)
        = (fst (lineRun (Suc n) ms len) - 23 / 2 * snd (lineRun (Suc n) ms len)) * len"
      by (simp add: algebra_simps)
    also have "\<dots> = (?a - 23 / 2 * ?b - 23 / 2 * ?g) * len"
      by (simp only: lineRun_drift)
    also have "\<dots> = (?a * len - 23 / 2 * (?b * len)) - 23 / 2 * (?g * len)"
      by (simp add: algebra_simps)
    finally show ?thesis .
  qed
  show ?case
  proof (cases "?a \<le> 0")
    case True
    have "?g * len \<le> 0"
      using lineForce_nonpos[OF True assms] assms(2) by (simp add: mult_nonpos_nonneg)
    then show ?thesis
      unfolding step using Suc.IH by linarith
  next
    case False
    then have x: "0 < ?a * len"
      using assms(2) by simp
    have "\<bar>?b * len\<bar> = \<bar>?b\<bar> * len"
      using assms(2) by (simp add: abs_mult)
    then have v: "?b * len < 23 / 2 * ms"
      using lineRun_speed[OF assms, of n] by linarith
    have "\<bar>?g * len\<bar> = \<bar>?g\<bar> * len"
      using assms(2) by (simp add: abs_mult)
    then have g: "?g * len \<le> ms"
      using lineForce_bound[OF assms, of ?a] by linarith
    show ?thesis
      unfolding step using x v g by linarith
  qed
qed

lemma lineRun_overshoot:
  assumes "0 < ms" "0 < len"
  shows "- 276 * ms < fst (lineRun n ms len) * len"
proof -
  have "\<bar>snd (lineRun n ms len) * len\<bar> = \<bar>snd (lineRun n ms len)\<bar> * len"
    using assms(2) by (simp add: abs_mult)
  then have "- (23 / 2 * ms) < snd (lineRun n ms len) * len"
    using lineRun_speed[OF assms, of n] by linarith
  then show ?thesis
    using lineRun_drift_lower[OF assms, of n] by linarith
qed

lemma onLine_fields:
  "position (onLine target u k ab) = sub_v target (multiplyScalar u (fst ab))"
  "velocity (onLine target u k ab) = multiplyScalar u (snd ab)"
  "targetIndex (onLine target u k ab) = k"
  by (simp_all add: onLine_def)

lemma distanceTo_onLine:
  "distanceTo target (onLine target u k ab) = \<bar>fst ab\<bar> * length_v u"
proof -
  have "sub_v target (sub_v target (multiplyScalar u (fst ab))) = multiplyScalar u (fst ab)"
    by (simp add: Vector3_eq_iff vec_simps)
  then show ?thesis
    by (simp add: distanceTo_def onLine_fields length_v_multiplyScalar)
qed

lemma steeringForce_onLine:
  assumes "0 < length_v u"
  shows "steeringForce disp target (onLine target u k ab)
           = multiplyScalar u (lineForce (maxSpeedOf disp) (length_v u) (fst ab))"
proof (cases "fst ab = 0")
  case True
  then show ?thesis
    by (simp add: steeringForce_def distanceTo_onLine lineForce_def multiplyScalar_def)
next
  case False
  have s: "sub_v target (sub_v target (multiplyScalar u (fst ab))) = multiplyScalar u (fst ab)"
    by (simp add: Vector3_eq_iff vec_simps)
  have d: "distanceTo target (onLine target u k ab) \<noteq> 0"
    using False assms by (simp add: distanceTo_onLine)
  have q: "fst ab * (m / (\<bar>fst ab\<bar> * length_v u)) = sgn (fst ab) * m / length_v u" for m
    using False by (simp add: sgn_if abs_if)
  let ?m = "min (\<bar>fst ab\<bar> * length_v u * 0.1) (maxSpeedOf disp)"
  have "steeringForce disp target (onLine target u k ab)
          = multiplyScalar (multiplyScalar u (fst ab)) (?m / (\<bar>fst ab\<bar> * length_v u))"
    using d by (simp add: steeringForce_def onLine_fields s distanceTo_onLine)
  also have "\<dots> = multiplyScalar u (fst ab * (?m / (\<bar>fst ab\<bar> * length_v u)))"
    by (simp add: multiplyScalar_def mult.assoc)
  also have "\<dots> = multiplyScalar u (sgn (fst ab) * ?m / length_v u)"
    by (simp only: q)
  also have "\<dots> = multiplyScalar u (lineForce (maxSpeedOf disp) (length_v u) (fst ab))"
    by (simp only: lineForce_def)
  finally show ?thesis .
qed

lemma physicsUpdate_onLine:
  assumes "0 < length_v u"
  shows "physicsUpdate disp target (onLine target u k ab)
           = onLine target u k (lineStep (maxSpeedOf disp) (length_v u) ab)"
proof -
  let ?g = "lineForce (maxSpeedOf disp) (length_v u) (fst ab)"
  have v: "multiplyScalar (add_v (multiplyScalar u (snd ab)) (multiplyScalar u ?g)) 0.92
             = multiplyScalar u ((snd ab + ?g) * 0.92)"
    by (simp add: Vector3_eq_iff vec_simps algebra_simps)
  have x: "add_v (sub_v target (multiplyScalar u (fst ab)))
                 (multiplyScalar u ((snd ab + ?g) * 0.92))
             = sub_v target (multiplyScalar u (fst ab - (snd ab + ?g) * 0.92))"
    by (simp add: Vector3_eq_iff vec_simps algebra_simps)
  show ?thesis
    unfolding physicsUpdate_eq steeringForce_onLine[OF assms] onLine_fields v x
    by (simp add: onLine_def lineStep_def Let_def)
qed

lemma ticks_onLine:
  assumes "0 < length_v u"
  shows "ticks n disp target (onLine target u k (1, 0))
           = onLine target u k (lineRun n (maxSpeedOf disp) (length_v u))"
  by (induction n) (simp_all add: physicsUpdate_onLine[OF assms])

lemma start_onLine:
  assumes "velocity p = Vector3 0 0 0"
  shows "p = onLine target (sub_v target (position p)) (targetIndex p) (1, 0)"
proof -
  have "sub_v target (multiplyScalar (sub_v target (position p)) 1) = position p"
    by (simp add: Vector3_eq_iff vec_simps)
  moreover have "multiplyScalar (sub_v target (position p)) 0 = Vector3 0 0 0"
    by (simp add: multiplyScalar_def)
  ultimately show ?thesis
    using assms by (simp add: onLine_def)
qed

lemma notPast_onLine:
  assumes "0 < length_v u" "sub_v target (position p) = u"
  shows "notPast target p (onLine target u k ab) \<longleftrightarrow> 0 \<le> fst ab"
proof -
  have s: "sub_v target (sub_v target (multiplyScalar u (fst ab))) = multiplyScalar u (fst ab)"
    by (simp add: Vector3_eq_iff vec_simps)
  have sq: "0 < vec_x u * vec_x u + vec_y u * vec_y u + vec_z u * vec_z u"
    using assms(1) by (simp add: length_v_def)
  have "dot_v (multiplyScalar u (fst ab)) u
          = fst ab * (vec_x u * vec_x u + vec_y u * vec_y u + vec_z u * vec_z u)"
    by (simp add: dot_v_def vec_simps algebra_simps)
  then show ?thesis
    using sq by (simp add: notPast_def onLine_fields s assms(2) zero_le_mult_iff)
qed


lemma ticks_from_rest:
  assumes "velocity p = Vector3 0 0 0" and "position p \<noteq> target"
  shows "0 < length_v (sub_v target (position p))"
    and "ticks k disp target p =
          onLine target (sub_v target (position p)) (targetIndex p)
            (lineRun k (maxSpeedOf disp) (length_v (sub_v target (position p))))"
proof -
  have "sub_v target (position p) \<noteq> Vector3 0 0 0"
    using assms(2) by (auto simp: Vector3_eq_iff vec_simps)
  then show len: "0 < length_v (sub_v target (position p))"
    using length_v_nonneg[of "sub_v target (position p)"] length_v_zero_iff[of "sub_v target (position p)"]
    by linarith
  have "ticks k disp target p =
      ticks k disp target (onLine target (sub_v target (position p)) (targetIndex p) (1, 0))"
    by (rule arg_cong[where f = "ticks k disp target", OF start_onLine[OF assms(1)]])
  then show "ticks k disp target p =
          onLine target (sub_v target (position p)) (targetIndex p)
            (lineRun k (maxSpeedOf disp) (length_v (sub_v target (position p))))"
    by (simp only: ticks_onLine[OF len])
qed

text \<open>
  Claim C5, amended. A particle that starts at rest away from a fixed target, with
  \<open>maxSpeed > 0\<close>: on every tick up to the one on which it reaches or goes past the
  target, its distance to the target strictly decreases; and it never overshoots the
  target by more than \<open>276 * maxSpeed\<close>: on every tick on which it is beyond the target
  its distance to the target is below that. Its speed, the distance it moves in a tick,
  stays below \<open>11.5 * maxSpeed\<close>, so on the tick on which it goes past the target it lands
  less than \<open>11.5 * maxSpeed\<close> beyond it. (\<open>maxSpeed\<close> caps the steering force of a tick,
  not the speed: with the damping 0.92 the speed can approach \<open>0.92 / 0.08 = 11.5\<close> times
  the cap. The quantity \<open>x - 11.5 * v\<close>, with \<open>x\<close> the signed distance left and \<open>v\<close> the
  velocity toward the target, changes by \<open>11.5\<close> times the force of the tick and so never
  falls below \<open>- 143.75 * maxSpeed\<close>, which gives the bound \<open>143.75 + 11.5 * 11.5 = 276\<close>.)
\<close>

theorem C5_approach_until_passing:
  assumes "velocity p = Vector3 0 0 0" and "position p \<noteq> target" and "0 < maxSpeedOf disp"
  shows "((\<forall>k \<le> Suc n. notPast target p (ticks k disp target p)) \<longrightarrow>
            distanceTo target (ticks (Suc n) disp target p)
              < distanceTo target (ticks n disp target p))
         \<and> length_v (velocity (ticks n disp target p)) < 11.5 * maxSpeedOf disp
         \<and> (notPast target p (ticks n disp target p)
              \<and> \<not> notPast target p (ticks (Suc n) disp target p) \<longrightarrow>
            distanceTo target (ticks (Suc n) disp target p) < 11.5 * maxSpeedOf disp)
         \<and> (\<not> notPast target p (ticks n disp target p) \<longrightarrow>
            distanceTo target (ticks n disp target p) < 276 * maxSpeedOf disp)"
proof -
  let ?u = "sub_v target (position p)"
  let ?len = "length_v ?u"
  let ?ms = "maxSpeedOf disp"
  note len = ticks_from_rest(1)[OF assms(1,2)]
  note T = ticks_from_rest(2)[OF assms(1,2), of _ disp]
  have D: "distanceTo target (ticks k disp target p) = \<bar>fst (lineRun k ?ms ?len)\<bar> * ?len" for k
    unfolding T by (rule distanceTo_onLine)
  have N: "notPast target p (ticks k disp target p) \<longleftrightarrow> 0 \<le> fst (lineRun k ?ms ?len)" for k
    unfolding T by (rule notPast_onLine[OF len refl])
  have V: "length_v (velocity (ticks k disp target p)) = \<bar>snd (lineRun k ?ms ?len)\<bar> * ?len" for k
    unfolding T by (simp add: onLine_fields length_v_multiplyScalar)
  have a: "(\<forall>k \<le> Suc n. notPast target p (ticks k disp target p)) \<longrightarrow>
            distanceTo target (ticks (Suc n) disp target p)
              < distanceTo target (ticks n disp target p)"
  proof
    assume "\<forall>k \<le> Suc n. notPast target p (ticks k disp target p)"
    then have "\<forall>k \<le> Suc n. 0 \<le> fst (lineRun k ?ms ?len)"
      unfolding N .
    from lineRun_approach[OF assms(3) len this]
    show "distanceTo target (ticks (Suc n) disp target p)
              < distanceTo target (ticks n disp target p)"
      unfolding D using len by (simp only: mult_strict_right_mono)
  qed
  have b: "length_v (velocity (ticks n disp target p)) < 11.5 * ?ms"
    unfolding V by (rule lineRun_speed[OF assms(3) len])
  have c: "notPast target p (ticks n disp target p)
              \<and> \<not> notPast target p (ticks (Suc n) disp target p) \<longrightarrow>
            distanceTo target (ticks (Suc n) disp target p) < 11.5 * ?ms"
  proof
    assume "notPast target p (ticks n disp target p)
              \<and> \<not> notPast target p (ticks (Suc n) disp target p)"
    then have "0 \<le> fst (lineRun n ?ms ?len)" "fst (lineRun (Suc n) ?ms ?len) < 0"
      unfolding N by auto
    from lineRun_passing[OF assms(3) len this]
    show "distanceTo target (ticks (Suc n) disp target p) < 11.5 * ?ms"
      unfolding D .
  qed
  have d: "\<not> notPast target p (ticks n disp target p) \<longrightarrow>
            distanceTo target (ticks n disp target p) < 276 * ?ms"
  proof
    assume "\<not> notPast target p (ticks n disp target p)"
    then have neg: "fst (lineRun n ?ms ?len) < 0"
      unfolding N by simp
    then have "\<bar>fst (lineRun n ?ms ?len)\<bar> * ?len = - (fst (lineRun n ?ms ?len) * ?len)"
      by simp
    then show "distanceTo target (ticks n disp target p) < 276 * ?ms"
      unfolding D using lineRun_overshoot[OF assms(3) len, of n] by linarith
  qed
  show ?thesis
    using a b c d by blast
qed

lemma rest_run:
  "ticks k 0 unitTarget restParticle = onLine unitTarget unitTarget 0 (lineRun k (1 / 2) 1)"
proof -
  have v: "velocity restParticle = Vector3 0 0 0" and x: "position restParticle \<noteq> unitTarget"
    by (simp_all add: restParticle_def unitTarget_def)
  have u: "sub_v unitTarget (position restParticle) = unitTarget"
    by (simp add: restParticle_def unitTarget_def sub_v_def)
  have l: "length_v unitTarget = 1"
    by (simp add: unitTarget_def length_v_def)
  have m: "maxSpeedOf 0 = 1 / 2"
    by (simp add: maxSpeedOf_def)
  have i: "targetIndex restParticle = 0"
    by (simp add: restParticle_def)
  show ?thesis
    using ticks_from_rest(2)[OF v x, of k 0] by (simp only: u l m i)
qed

lemma rest_distance:
  "distanceTo unitTarget (ticks k 0 unitTarget restParticle) = \<bar>fst (lineRun k (1 / 2) 1)\<bar>"
  unfolding rest_run distanceTo_onLine by (simp add: unitTarget_def length_v_def)

lemma rest_notPast:
  "notPast unitTarget restParticle (ticks k 0 unitTarget restParticle)
     \<longleftrightarrow> 0 \<le> fst (lineRun k (1 / 2) 1)"
  unfolding rest_run
  by (rule notPast_onLine) (simp_all add: unitTarget_def length_v_def restParticle_def sub_v_def)

lemma lineRun_values:
  "lineRun 1 (1 / 2) 1 = (908 / 10 ^ 3, 92 / 10 ^ 3)"
  "lineRun 5 (1 / 2) 1 = (7845196622848 / 10 ^ 15, 256662684593152 / 10 ^ 15)"
  "lineRun 6 (1 / 2) 1 = (- 229006231292153856 / 10 ^ 18, 236851427915001856 / 10 ^ 18)"
  "lineRun 9 (1 / 2) 1 =
     (- 646076164063359662967488512 / 10 ^ 27, 78324600593539707259584512 / 10 ^ 27)"
  "lineRun 10 (1 / 2) 1 =
     (- 658695789515587104653297319936 / 10 ^ 30, 12619625452227441685808807936 / 10 ^ 30)"
  by (simp_all add: eval_nat_numeral lineStep_def lineForce_def Let_def)

text \<open>
  Claim C5, as stated: from zero velocity the distance to a fixed target strictly
  decreases on every tick until it is within a small epsilon, and the particle never
  overshoots by more than \<open>maxSpeed\<close>. The seek is underdamped, and the claim fails for
  the particle at rest at distance 1 with dispersion 0 (\<open>maxSpeed = 0.5\<close>): the distance
  grows from tick 5 to tick 6 and again from tick 9 (where it is above 0.6) to tick 10,
  and at tick 10 the particle is beyond the target by more than \<open>maxSpeed\<close>.
\<close>

theorem C5_overshoot_counterexample:
  "velocity restParticle = Vector3 0 0 0
   \<and> position restParticle \<noteq> unitTarget
   \<and> distanceTo unitTarget (ticks 0 0 unitTarget restParticle) = 1
   \<and> 1 / 200 < distanceTo unitTarget (ticks 5 0 unitTarget restParticle)
   \<and> distanceTo unitTarget (ticks 5 0 unitTarget restParticle)
       < distanceTo unitTarget (ticks 6 0 unitTarget restParticle)
   \<and> 3 / 5 < distanceTo unitTarget (ticks 9 0 unitTarget restParticle)
   \<and> distanceTo unitTarget (ticks 9 0 unitTarget restParticle)
       < distanceTo unitTarget (ticks 10 0 unitTarget restParticle)
   \<and> \<not> notPast unitTarget restParticle (ticks 10 0 unitTarget restParticle)
   \<and> maxSpeedOf 0 = 1 / 2
   \<and> maxSpeedOf 0 < distanceTo unitTarget (ticks 10 0 unitTarget restParticle)"
proof -
  have "velocity restParticle = Vector3 0 0 0" "position restParticle \<noteq> unitTarget"
    by (simp_all add: restParticle_def unitTarget_def)
  moreover have "distanceTo unitTarget (ticks 0 0 unitTarget restParticle) = 1"
    by (simp only: rest_distance lineRun.simps) simp
  moreover have "1 / 200 < distanceTo unitTarget (ticks 5 0 unitTarget restParticle)"
    "distanceTo unitTarget (ticks 5 0 unitTarget restParticle)
       < distanceTo unitTarget (ticks 6 0 unitTarget restParticle)"
    "3 / 5 < distanceTo unitTarget (ticks 9 0 unitTarget restParticle)"
    "distanceTo unitTarget (ticks 9 0 unitTarget restParticle)
       < distanceTo unitTarget (ticks 10 0 unitTarget restParticle)"
    by (simp_all only: rest_distance lineRun_values fst_conv) simp_all
  moreover have "\<not> notPast unitTarget restParticle (ticks 10 0 unitTarget restParticle)"
    by (simp only: rest_notPast lineRun_values fst_conv) simp
  moreover have "maxSpeedOf 0 = 1 / 2"
    by (simp add: maxSpeedOf_def)
  moreover have "maxSpeedOf 0 < distanceTo unitTarget (ticks 10 0 unitTarget restParticle)"
    by (simp only: rest_distance lineRun_values fst_conv) (simp add: maxSpeedOf_def)
  ultimately show ?thesis
    by blast
qed

theorem C5_approach_witness:
  "velocity restParticle = Vector3 0 0 0
   \<and> position restParticle \<noteq> unitTarget
   \<and> 0 < maxSpeedOf 0
   \<and> notPast unitTarget restParticle (ticks 0 0 unitTarget restParticle)
   \<and> notPast unitTarget restParticle (ticks (Suc 0) 0 unitTarget restParticle)
   \<and> distanceTo unitTarget (ticks (Suc 0) 0 unitTarget restParticle)
       < distanceTo unitTarget (ticks 0 0 unitTarget restParticle)
   \<and> notPast unitTarget restParticle (ticks 5 0 unitTarget restParticle)
   \<and> \<not> notPast unitTarget restParticle (ticks (Suc 5) 0 unitTarget restParticle)
   \<and> distanceTo unitTarget (ticks (Suc 5) 0 unitTarget restParticle) < 11.5 * maxSpeedOf 0
   \<and> \<not> notPast unitTarget restParticle (ticks 10 0 unitTarget restParticle)
   \<and> distanceTo unitTarget (ticks 10 0 unitTarget restParticle) < 276 * maxSpeedOf 0"
proof -
  have v: "velocity restParticle = Vector3 0 0 0" and x: "position restParticle \<noteq> unitTarget"
    by (simp_all add: restParticle_def unitTarget_def)
  have m: "0 < maxSpeedOf 0"
    by (simp add: maxSpeedOf_def)
  have s: "Suc 0 = 1" "Suc 5 = 6"
    by simp_all
  have n0: "notPast unitTarget restParticle (ticks 0 0 unitTarget restParticle)"
    by (simp only: rest_notPast lineRun.simps) simp
  have n1: "notPast unitTarget restParticle (ticks (Suc 0) 0 unitTarget restParticle)"
    by (simp only: s rest_notPast lineRun_values fst_conv) simp
  have n5: "notPast unitTarget restParticle (ticks 5 0 unitTarget restParticle)"
    by (simp only: rest_notPast lineRun_values fst_conv) simp
  have n6: "\<not> notPast unitTarget restParticle (ticks (Suc 5) 0 unitTarget restParticle)"
    by (simp only: s rest_notPast lineRun_values fst_conv) simp
  have n10: "\<not> notPast unitTarget restParticle (ticks 10 0 unitTarget restParticle)"
    by (simp only: rest_notPast lineRun_values fst_conv) simp
  have all: "\<forall>k \<le> Suc 0. notPast unitTarget restParticle (ticks k 0 unitTarget restParticle)"
    using n0 n1 by (auto simp: le_Suc_eq)
  show ?thesis
    using C5_approach_until_passing[OF v x m, of 0] C5_approach_until_passing[OF v x m, of 5]
      C5_approach_until_passing[OF v x m, of 10]
      v x m n0 n1 n5 n6 n10 all
    by blast
qed

end
